(* ===== verification/Backup_Prelude.thy ===== *)
theory Backup_Prelude
  imports Main
begin

text \<open>
  Shared vocabulary of the development: the Python exceptions the program can raise, the
  state-and-exception computations (\<open>'a prog\<close>) that model a Python statement sequence,
  with their bind and their characteristic equations, and small list and string helpers
  the components share.  A Python exception stops the computation but keeps every side
  effect made before it, so a computation returns its result (or exception) together with
  the state it leaves behind.
\<close>

named_theorems prog_simps \<open>equations that evaluate the computation combinators\<close>
named_theorems py_simps \<open>equations of the modelled Python built-ins\<close>

section \<open>Exceptions\<close>

text \<open>The exception classes that the statements of \<open>src/program.py\<close> can raise.\<close>

datatype exn =
    KeyError
  | TypeError
  | AttributeError
  | ValueError
  | JSONDecodeError
  | FileNotFoundError
  | FileExistsError
  | IsADirectoryError
  | NotADirectoryError
  | RequestException

section \<open>Computations with state and exceptions\<close>

type_synonym ('s, 'a) prog = "'s \<Rightarrow> (exn + 'a) \<times> 's"

definition preturn :: "'a \<Rightarrow> ('s, 'a) prog" where
  "preturn a s = (Inr a, s)"

definition praise :: "exn \<Rightarrow> ('s, 'a) prog" where
  "praise e s = (Inl e, s)"

definition plift :: "exn + 'a \<Rightarrow> ('s, 'a) prog" where
  "plift r s = (r, s)"

definition pbind :: "('s, 'a) prog \<Rightarrow> ('a \<Rightarrow> ('s, 'b) prog) \<Rightarrow> ('s, 'b) prog" where
  "pbind m f s = (case m s of (Inl e, s') \<Rightarrow> (Inl e, s') | (Inr a, s') \<Rightarrow> f a s')"

definition pseq :: "('s, 'a) prog \<Rightarrow> ('s, 'b) prog \<Rightarrow> ('s, 'b) prog" where
  "pseq m k = pbind m (\<lambda>_. k)"

text \<open>Sequencing of expressions that may raise but touch no state.\<close>

definition sbind :: "exn + 'a \<Rightarrow> ('a \<Rightarrow> exn + 'b) \<Rightarrow> exn + 'b" where
  "sbind r f = (case r of Inl e \<Rightarrow> Inl e | Inr a \<Rightarrow> f a)"

lemma sbind_simps [prog_simps, simp]:
  "sbind (Inl e) f = Inl e"
  "sbind (Inr a) f = f a"
  by (simp_all add: sbind_def)

lemma sbind_eq_Inr: "sbind r f = Inr b \<longleftrightarrow> (\<exists>a. r = Inr a \<and> f a = Inr b)"
  by (cases r) auto

text \<open>A loop over a Python list whose body may raise: the first exception ends the loop.\<close>

fun pforeach :: "('a \<Rightarrow> ('s, unit) prog) \<Rightarrow> 'a list \<Rightarrow> ('s, unit) prog" where
  "pforeach f [] = preturn ()"
| "pforeach f (x # xs) = pseq (f x) (pforeach f xs)"

lemma preturn_apply [prog_simps, simp]: "preturn a s = (Inr a, s)"
  by (simp add: preturn_def)

lemma praise_apply [prog_simps, simp]: "praise e s = (Inl e, s)"
  by (simp add: praise_def)

lemma plift_apply [prog_simps, simp]: "plift r s = (r, s)"
  by (simp add: plift_def)

lemma pbind_apply [prog_simps, simp]:
  "pbind m f s = (case m s of (Inl e, s') \<Rightarrow> (Inl e, s') | (Inr a, s') \<Rightarrow> f a s')"
  by (simp add: pbind_def)

lemma pseq_apply [prog_simps, simp]:
  "pseq m k s = (case m s of (Inl e, s') \<Rightarrow> (Inl e, s') | (Inr _, s') \<Rightarrow> k s')"
  by (simp add: pseq_def pbind_def)

text \<open>
  A property of the state that every step of a computation keeps is kept by the
  computation, whichever way it ends.
\<close>

definition keeps :: "('s \<Rightarrow> bool) \<Rightarrow> ('s, 'a) prog \<Rightarrow> bool" where
  "keeps P m \<longleftrightarrow> (\<forall>s. P s \<longrightarrow> P (snd (m s)))"

lemma keeps_preturn [intro!]: "keeps P (preturn a)"
  by (simp add: keeps_def)

lemma keeps_plift [intro!]: "keeps P (plift r)"
  by (simp add: keeps_def)

lemma keeps_praise [intro!]: "keeps P (praise e)"
  by (simp add: keeps_def)

lemma keeps_pbind [intro]:
  "keeps P m \<Longrightarrow> (\<And>a. keeps P (f a)) \<Longrightarrow> keeps P (pbind m f)"
  by (auto simp: keeps_def split: prod.splits sum.splits)

lemma keeps_pseq [intro]: "keeps P m \<Longrightarrow> keeps P k \<Longrightarrow> keeps P (pseq m k)"
  by (simp add: pseq_def keeps_pbind)

lemma keeps_if [intro!]: "keeps P m \<Longrightarrow> keeps P k \<Longrightarrow> keeps P (if b then m else k)"
  by simp

lemma keeps_pforeach [intro]: "(\<And>x. x \<in> set xs \<Longrightarrow> keeps P (f x)) \<Longrightarrow> keeps P (pforeach f xs)"
  by (induction xs) auto

lemma keepsD: "keeps P m \<Longrightarrow> P s \<Longrightarrow> m s = (r, s') \<Longrightarrow> P s'"
  by (metis keeps_def snd_conv)

section \<open>Strings\<close>

text \<open>Python's \<open>str.join\<close> for a separator.\<close>

fun join :: "string \<Rightarrow> string list \<Rightarrow> string" where
  "join sep [] = []"
| "join sep [x] = x"
| "join sep (x # y # zs) = x @ sep @ join sep (y # zs)"

text \<open>Decimal digits of a natural number, as Python's \<open>str\<close> prints an \<open>int\<close>.\<close>

definition digit_chars :: string where
  "digit_chars = ''0123456789''"

lemma length_digit_chars [simp]: "length digit_chars = 10"
  by (simp add: digit_chars_def)

fun dec_nat :: "nat \<Rightarrow> string" where
  "dec_nat n = (if n < 10 then [digit_chars ! n]
                else dec_nat (n div 10) @ [digit_chars ! (n mod 10)])"

declare dec_nat.simps [simp del]

definition dec_int :: "int \<Rightarrow> string" where
  "dec_int i = (if i < 0 then CHR ''-'' # dec_nat (nat (- i)) else dec_nat (nat i))"

lemma dec_nat_nonempty [simp]: "dec_nat n \<noteq> []"
  by (subst dec_nat.simps) simp

lemma dec_nat_digits: "c \<in> set (dec_nat n) \<Longrightarrow> c \<in> set digit_chars"
proof (induction n rule: dec_nat.induct)
  case (1 n)
  have digit: "digit_chars ! m \<in> set digit_chars" if "m < 10" for m :: nat
    using that by (intro nth_mem) simp
  show ?case
  proof (cases "n < 10")
    case True
    with "1.prems" show ?thesis by (simp add: dec_nat.simps [of n] digit)
  next
    case False
    with "1.prems" "1.IH" show ?thesis
      by (auto simp: dec_nat.simps [of n] digit)
  qed
qed


lemma digit_chars_inj:
  "i < 10 \<Longrightarrow> j < 10 \<Longrightarrow> digit_chars ! i = digit_chars ! j \<Longrightarrow> i = j"
  using nth_eq_iff_index_eq [of digit_chars i j] by (simp add: digit_chars_def)

lemma length_dec_nat: "n < 10 \<Longrightarrow> length (dec_nat n) = 1" "10 \<le> n \<Longrightarrow> 2 \<le> length (dec_nat n)"
  by (simp_all add: dec_nat.simps [of n] Suc_le_eq)

lemma dec_nat_inj: "dec_nat m = dec_nat n \<Longrightarrow> m = n"
proof (induction n arbitrary: m rule: dec_nat.induct)
  case (1 n)
  show ?case
  proof (cases "n < 10")
    case True
    with "1.prems" length_dec_nat have "m < 10"
      by (metis not_less numeral_le_one_iff semiring_norm(69) le_antisym one_le_numeral)
    with True "1.prems" show ?thesis
      by (simp add: dec_nat.simps [of n] dec_nat.simps [of m] digit_chars_inj)
  next
    case False
    have m: "\<not> m < 10"
    proof
      assume "m < 10"
      then have "length (dec_nat n) = 1" using "1.prems" length_dec_nat(1) by metis
      with False length_dec_nat(2) [of n] show False by simp
    qed
    from "1.prems" False m have "dec_nat (m div 10) = dec_nat (n div 10)"
      and "digit_chars ! (m mod 10) = digit_chars ! (n mod 10)"
      by (simp_all add: dec_nat.simps [of n] dec_nat.simps [of m])
    with "1.IH" False have "m div 10 = n div 10" "m mod 10 = n mod 10"
      by (auto intro: digit_chars_inj)
    then show ?thesis by (metis div_mult_mod_eq)
  qed
qed

lemma minus_not_digit: "dec_nat n \<noteq> CHR ''-'' # w"
proof
  assume "dec_nat n = CHR ''-'' # w"
  then have "CHR ''-'' \<in> set (dec_nat n)" by simp
  then show False using dec_nat_digits by (force simp: digit_chars_def)
qed

end
