(* ===== verification/Py_Json.thy ===== *)
theory Py_Json
  imports Backup_Prelude
begin

text \<open>
  The Python values the program handles: the result of \<open>requests.Response.json()\<close>
  (nested dicts, lists, strings, ints, booleans and \<open>None\<close>), and the built-in
  operations \<open>src/program.py\<close> applies to them: subscription \<open>d[k]\<close>, \<open>d.get(k)\<close>,
  truth testing (\<open>if not sizes\<close>), iteration (\<open>for photo in items\<close>), \<open>*\<close>, \<open>>\<close>
  (inside \<open>max\<close>), \<open>str()\<close> (inside f-strings) and \<open>json.dump(..., indent=4)\<close>.
  A JSON object is the association list of the dict \<open>json.loads\<close> builds, keys in
  insertion order; lookups read it with \<open>map_of\<close>.
  Numbers are Python ints (floats do not occur in the payloads the program reads);
  strings are byte strings (\<open>char list\<close>).
\<close>

datatype json =
    JNull
  | JBool bool
  | JInt int
  | JStr string
  | JList "json list"
  | JDict "(string \<times> json) list"

section \<open>Truth testing, subscription, dict.get, iteration\<close>

fun py_truthy :: "json \<Rightarrow> bool" where
  "py_truthy JNull = False"
| "py_truthy (JBool b) = b"
| "py_truthy (JInt n) = (n \<noteq> 0)"
| "py_truthy (JStr s) = (s \<noteq> [])"
| "py_truthy (JList xs) = (xs \<noteq> [])"
| "py_truthy (JDict ps) = (ps \<noteq> [])"

text \<open>\<open>v[k]\<close> with a string key: a dict looks the key up (\<open>KeyError\<close> when it is
  missing); a list or a string wants an integer index and every other value is not
  subscriptable, both \<open>TypeError\<close>.\<close>

fun py_getitem :: "json \<Rightarrow> string \<Rightarrow> exn + json" where
  "py_getitem (JDict ps) k = (case map_of ps k of None \<Rightarrow> Inl KeyError | Some v \<Rightarrow> Inr v)"
| "py_getitem _ k = Inl TypeError"

text \<open>\<open>v.get(k)\<close>: only dicts have the method (\<open>AttributeError\<close> otherwise); a missing
  key gives \<open>None\<close>.\<close>

fun py_dict_get :: "json \<Rightarrow> string \<Rightarrow> exn + json" where
  "py_dict_get (JDict ps) k = Inr (case map_of ps k of None \<Rightarrow> JNull | Some v \<Rightarrow> v)"
| "py_dict_get _ k = Inl AttributeError"

text \<open>\<open>iter(v)\<close>: a list yields its elements, a dict its keys, a string its
  one-character strings; other values are not iterable.\<close>

fun py_iter :: "json \<Rightarrow> exn + json list" where
  "py_iter (JList xs) = Inr xs"
| "py_iter (JDict ps) = Inr (map (\<lambda>p. JStr (fst p)) ps)"
| "py_iter (JStr s) = Inr (map (\<lambda>c. JStr [c]) s)"
| "py_iter _ = Inl TypeError"

section \<open>Arithmetic and comparison\<close>

text \<open>\<open>bool\<close> is a subclass of \<open>int\<close> in Python.\<close>

fun py_int :: "json \<Rightarrow> int option" where
  "py_int (JInt n) = Some n"
| "py_int (JBool b) = Some (if b then 1 else 0)"
| "py_int _ = None"

text \<open>\<open>a * b\<close>: integer product, or repetition of a string or list by an integer
  (a negative count gives the empty sequence); any other pair is a \<open>TypeError\<close>.\<close>

fun py_mul :: "json \<Rightarrow> json \<Rightarrow> exn + json" where
  "py_mul a b =
     (case (py_int a, py_int b) of
        (Some m, Some n) \<Rightarrow> Inr (JInt (m * n))
      | (Some n, None) \<Rightarrow>
          (case b of JStr s \<Rightarrow> Inr (JStr (concat (replicate (nat n) s)))
                   | JList xs \<Rightarrow> Inr (JList (concat (replicate (nat n) xs)))
                   | _ \<Rightarrow> Inl TypeError)
      | (None, Some n) \<Rightarrow>
          (case a of JStr s \<Rightarrow> Inr (JStr (concat (replicate (nat n) s)))
                   | JList xs \<Rightarrow> Inr (JList (concat (replicate (nat n) xs)))
                   | _ \<Rightarrow> Inl TypeError)
      | (None, None) \<Rightarrow> Inl TypeError)"

text \<open>String order is lexicographic on character codes.\<close>

fun str_less :: "string \<Rightarrow> string \<Rightarrow> bool" where
  "str_less [] [] = False"
| "str_less [] (_ # _) = True"
| "str_less (_ # _) [] = False"
| "str_less (x # xs) (y # ys) =
     (of_char x < (of_char y :: nat) \<or> (x = y \<and> str_less xs ys))"

text \<open>\<open>a > b\<close> on the keys \<open>max\<close> compares: integers numerically, strings
  lexicographically; other pairs raise \<open>TypeError\<close> (list keys, which Python would
  compare element-wise, are outside the model).\<close>

fun py_gt :: "json \<Rightarrow> json \<Rightarrow> exn + bool" where
  "py_gt a b =
     (case (py_int a, py_int b) of
        (Some m, Some n) \<Rightarrow> Inr (n < m)
      | _ \<Rightarrow> (case (a, b) of (JStr s, JStr t) \<Rightarrow> Inr (str_less t s) | _ \<Rightarrow> Inl TypeError))"

section \<open>str() and repr()\<close>

definition hex_digits :: string where
  "hex_digits = ''0123456789abcdef''"

definition hex2 :: "char \<Rightarrow> string" where
  "hex2 c = [hex_digits ! (of_char c div 16), hex_digits ! (of_char c mod 16)]"

text \<open>\<open>repr\<close> of a string: single quotes unless the text holds a single quote and no
  double quote; backslash, the quote, tab, newline and carriage return are escaped, other
  control characters are written \<open>\xNN\<close>.\<close>

definition repr_char :: "char \<Rightarrow> char \<Rightarrow> string" where
  "repr_char q c =
     (if c = CHR 0x5C then [CHR 0x5C, CHR 0x5C]
      else if c = q then [CHR 0x5C, q]
      else if c = CHR 0x09 then [CHR 0x5C, CHR ''t'']
      else if c = CHR 0x0A then [CHR 0x5C, CHR ''n'']
      else if c = CHR 0x0D then [CHR 0x5C, CHR ''r'']
      else if of_char c < (32 :: nat) \<or> of_char c = (127 :: nat) then [CHR 0x5C, CHR ''x''] @ hex2 c
      else [c])"

definition repr_str :: "string \<Rightarrow> string" where
  "repr_str s =
     (let q = (if CHR 0x27 \<in> set s \<and> CHR 0x22 \<notin> set s then CHR 0x22 else CHR 0x27)
      in q # concat (map (repr_char q) s) @ [q])"

fun py_repr :: "json \<Rightarrow> string" where
  "py_repr JNull = ''None''"
| "py_repr (JBool b) = (if b then ''True'' else ''False'')"
| "py_repr (JInt n) = dec_int n"
| "py_repr (JStr s) = repr_str s"
| "py_repr (JList xs) = CHR ''['' # join '', '' (map py_repr xs) @ '']''"
| "py_repr (JDict ps) =
     CHR ''{'' # join '', '' (map (\<lambda>(k, v). repr_str k @ '': '' @ py_repr v) ps) @ ''}''"

text \<open>\<open>str(v)\<close>, as an f-string formats a value: a string is itself, everything else
  its \<open>repr\<close>.\<close>

fun py_str :: "json \<Rightarrow> string" where
  "py_str (JStr s) = s"
| "py_str v = py_repr v"

section \<open>json.dump with indent=4\<close>

text \<open>The string encoder of the \<open>json\<close> module with \<open>ensure_ascii=True\<close>:
  quote and backslash escaped, the usual control escapes, every other character outside
  the printable ASCII range as \<open>\u00NN\<close>.\<close>

definition json_char :: "char \<Rightarrow> string" where
  "json_char c =
     (if c = CHR 0x22 then [CHR 0x5C, CHR 0x22]
      else if c = CHR 0x5C then [CHR 0x5C, CHR 0x5C]
      else if c = CHR 0x0A then [CHR 0x5C, CHR ''n'']
      else if c = CHR 0x0D then [CHR 0x5C, CHR ''r'']
      else if c = CHR 0x09 then [CHR 0x5C, CHR ''t'']
      else if c = CHR 0x08 then [CHR 0x5C, CHR ''b'']
      else if c = CHR 0x0C then [CHR 0x5C, CHR ''f'']
      else if of_char c < (32 :: nat) \<or> (126 :: nat) < of_char c
        then [CHR 0x5C, CHR ''u'', CHR ''0'', CHR ''0''] @ hex2 c
      else [c])"

definition json_str :: "string \<Rightarrow> string" where
  "json_str s = CHR 0x22 # concat (map json_char s) @ [CHR 0x22]"

definition newline_indent :: "nat \<Rightarrow> string" where
  "newline_indent lvl = CHR 0x0A # replicate (4 * lvl) (CHR '' '')"

text \<open>\<open>_iterencode\<close> at nesting level \<open>lvl\<close>: an empty list or dict is \<open>[]\<close> or
  \<open>{}\<close>; otherwise each item goes on its own line, indented four spaces deeper, items
  separated by \<open>,\<close>, keys from values by \<open>: \<close>.\<close>

fun json_enc :: "nat \<Rightarrow> json \<Rightarrow> string" where
  "json_enc lvl JNull = ''null''"
| "json_enc lvl (JBool b) = (if b then ''true'' else ''false'')"
| "json_enc lvl (JInt n) = dec_int n"
| "json_enc lvl (JStr s) = json_str s"
| "json_enc lvl (JList xs) =
     (if xs = [] then ''[]''
      else CHR ''['' # newline_indent (Suc lvl)
             @ join ('','' @ newline_indent (Suc lvl)) (map (json_enc (Suc lvl)) xs)
             @ newline_indent lvl @ '']'')"
| "json_enc lvl (JDict ps) =
     (if ps = [] then ''{}''
      else CHR ''{'' # newline_indent (Suc lvl)
             @ join ('','' @ newline_indent (Suc lvl))
                 (map (\<lambda>(k, v). json_str k @ '': '' @ json_enc (Suc lvl) v) ps)
             @ newline_indent lvl @ ''}'')"

definition json_dump_indent4 :: "json \<Rightarrow> string" where
  "json_dump_indent4 v = json_enc 0 v"

lemmas py_builtin_simps [py_simps] =
  py_truthy.simps py_getitem.simps py_dict_get.simps py_iter.simps py_int.simps

end
