(* ===== verification/Io_World.thy ===== *)
theory Io_World
  imports Py_Json
begin

text \<open>
  The world the program acts on, and the library calls it makes on it.
  \<^item> The local file system (relative to the working directory) is a map from paths to
    entries, a directory or a file with its bytes; \<open>os.path.exists\<close>, \<open>os.makedirs\<close>,
    \<open>open(p, 'wb')\<close> / \<open>open(p, 'w')\<close>, \<open>file.write\<close> and \<open>open(p, 'rb')\<close> act on it.
  \<^item> Every call of \<open>requests.get\<close> / \<open>requests.put\<close> is a \<open>request\<close> record (method,
    URL, headers, query parameters, body) appended to the list of requests sent so far.
  \<^item> The remote services (the VK API, image hosts, Yandex Disk) are the environment, an
    arbitrary function that answers a request given every request sent before it:
    \<open>Some\<close> response (status, body bytes, text, parsed JSON body if the body is JSON), or
    \<open>None\<close> when \<open>requests\<close> raises (connection failure, invalid URL).  Theorems hold
    for every environment unless they say otherwise.
  \<^item> What \<open>print\<close> writes is a list of console messages; the Russian message texts are
    kept as message kinds with the values the f-strings interpolate.
  The state record \<open>sys\<close> holds the three.  These are models of the Python standard
  library and of \<open>requests\<close>, which the program only calls.
\<close>

type_synonym bytes = string

datatype fentry = Dir | File bytes

datatype http_method = GET | PUT

record request =
  req_method :: http_method
  req_url :: string
  req_headers :: "(string \<times> string) list"
  req_params :: "(string \<times> string) list"
  req_data :: "bytes option"

record response =
  status_code :: int
  content :: bytes
  resp_text :: string
  resp_json :: "json option"

type_synonym env = "request list \<Rightarrow> request \<Rightarrow> response option"

text \<open>The console messages of \<open>src/program.py\<close>, by the line that prints them.\<close>

datatype msg =
    MsgPhotosError json       \<comment> \<open>line 32: error while getting photos, with the payload\<close>
  | MsgNoSizes string         \<comment> \<open>line 40: photo (named by its likes count) has no sizes\<close>
  | MsgFolderCreated string   \<comment> \<open>line 62: folder created\<close>
  | MsgFolderExists string    \<comment> \<open>line 64: folder already exists\<close>
  | MsgFolderError string     \<comment> \<open>line 66: folder creation failed, with the response text\<close>
  | MsgAbort                  \<comment> \<open>line 89: no photos, program ends\<close>

record sys =
  fs :: "string \<rightharpoonup> fentry"
  console :: "msg list"
  sent :: "request list"

type_synonym 'a io = "(sys, 'a) prog"

section \<open>Paths\<close>

text \<open>\<open>os.path.dirname\<close>: everything before the last slash (empty for a bare name).\<close>

definition dirname :: "string \<Rightarrow> string" where
  "dirname p = rev (drop 1 (dropWhile (\<lambda>c. c \<noteq> CHR ''/'') (rev p)))"

definition path_join :: "string \<Rightarrow> string \<Rightarrow> string" where
  "path_join d f = d @ CHR ''/'' # f"

lemma dirname_path_join:
  assumes "CHR ''/'' \<notin> set f"
  shows "dirname (path_join d f) = d"
proof -
  from assms have "\<forall>c \<in> set (rev f). c \<noteq> CHR ''/''" by auto
  then have "dropWhile (\<lambda>c. c \<noteq> CHR ''/'') (rev f @ CHR ''/'' # rev d) = CHR ''/'' # rev d"
    by (subst dropWhile_append2) auto
  then show ?thesis by (simp add: dirname_def path_join_def)
qed

lemma length_dirname: "p \<noteq> [] \<Longrightarrow> length (dirname p) < length p"
proof -
  assume "p \<noteq> []"
  then have "0 < length p" by simp
  moreover have "length (dropWhile (\<lambda>c. c \<noteq> CHR ''/'') (rev p)) \<le> length p"
    using length_dropWhile_le [of _ "rev p"] by simp
  moreover have "length (dirname p) = length (dropWhile (\<lambda>c. c \<noteq> CHR ''/'') (rev p)) - 1"
    by (simp add: dirname_def)
  ultimately show ?thesis by linarith
qed

lemma dirname_self: "dirname p = p \<Longrightarrow> p = []"
  using length_dirname by force

section \<open>File system calls\<close>

definition os_path_exists :: "string \<Rightarrow> sys \<Rightarrow> bool" where
  "os_path_exists p s \<longleftrightarrow> fs s p \<noteq> None"

definition parent_state :: "string \<Rightarrow> sys \<Rightarrow> exn + unit" where
  "parent_state p s =
     (if dirname p = [] then Inr ()
      else case fs s (dirname p) of
             None \<Rightarrow> Inl FileNotFoundError
           | Some (File _) \<Rightarrow> Inl NotADirectoryError
           | Some Dir \<Rightarrow> Inr ())"

text \<open>\<open>os.makedirs(p)\<close> for a path whose parent exists (the program creates the single
  directory \<open>images_vk\<close> in the working directory).\<close>

definition os_makedirs :: "string \<Rightarrow> unit io" where
  "os_makedirs p s =
     (if fs s p \<noteq> None then (Inl FileExistsError, s)
      else case parent_state p s of
             Inl e \<Rightarrow> (Inl e, s)
           | Inr _ \<Rightarrow> (Inr (), s\<lparr>fs := (fs s)(p \<mapsto> Dir)\<rparr>))"

text \<open>\<open>open(p, 'wb')\<close> and \<open>open(p, 'w')\<close>: create or truncate the file.\<close>

definition open_write :: "string \<Rightarrow> unit io" where
  "open_write p s =
     (case parent_state p s of
        Inl e \<Rightarrow> (Inl e, s)
      | Inr _ \<Rightarrow> (if fs s p = Some Dir then (Inl IsADirectoryError, s)
                 else (Inr (), s\<lparr>fs := (fs s)(p \<mapsto> File [])\<rparr>)))"

text \<open>\<open>file.write(b)\<close> on a file just opened for writing: its content becomes \<open>b\<close>.\<close>

definition file_write :: "string \<Rightarrow> bytes \<Rightarrow> unit io" where
  "file_write p b s = (Inr (), s\<lparr>fs := (fs s)(p \<mapsto> File b)\<rparr>)"

text \<open>\<open>with open(p, 'wb') as file: ... file.write(b)\<close>: the file is created (or
  truncated) first, then the body runs and computes the bytes, which are written; when the
  body raises, the file stays empty.\<close>

definition with_open_write :: "string \<Rightarrow> bytes io \<Rightarrow> unit io" where
  "with_open_write p body = pseq (open_write p) (pbind body (file_write p))"

text \<open>\<open>open(p, 'rb')\<close> followed by reading the whole file (what \<open>requests\<close> does
  with \<open>data=file\<close>).\<close>

definition open_read :: "string \<Rightarrow> bytes io" where
  "open_read p s =
     (case fs s p of
        None \<Rightarrow> (Inl FileNotFoundError, s)
      | Some Dir \<Rightarrow> (Inl IsADirectoryError, s)
      | Some (File b) \<Rightarrow> (Inr b, s))"

section \<open>Console and network\<close>

definition py_print :: "msg \<Rightarrow> unit io" where
  "py_print m s = (Inr (), s\<lparr>console := console s @ [m]\<rparr>)"

text \<open>\<open>requests.get\<close> / \<open>requests.put\<close>: the request is sent (recorded) and the
  environment answers it; no answer means \<open>requests\<close> raised.  An HTTP error status is
  an answer like any other: \<open>requests\<close> does not raise on it.\<close>

definition http :: "env \<Rightarrow> request \<Rightarrow> response io" where
  "http E r s =
     (case E (sent s) r of
        None \<Rightarrow> (Inl RequestException, s\<lparr>sent := sent s @ [r]\<rparr>)
      | Some resp \<Rightarrow> (Inr resp, s\<lparr>sent := sent s @ [r]\<rparr>))"

text \<open>\<open>response.json()\<close>: the parsed body, or \<open>JSONDecodeError\<close>.\<close>

definition resp_json_call :: "response \<Rightarrow> exn + json" where
  "resp_json_call r = (case resp_json r of None \<Rightarrow> Inl JSONDecodeError | Some j \<Rightarrow> Inr j)"

lemmas io_defs =
  os_makedirs_def open_write_def with_open_write_def file_write_def open_read_def py_print_def http_def
  parent_state_def os_path_exists_def resp_json_call_def

text \<open>A computation that leaves the file system as it is.\<close>

definition fs_frame :: "'a io \<Rightarrow> bool" where
  "fs_frame m \<longleftrightarrow> (\<forall>s. fs (snd (m s)) = fs s)"

text \<open>Two environments that answer every request without a body alike, and raise on the
  same requests: they may differ only in the answers to requests that carry data (in this
  program, the \<open>PUT\<close>s of the file bytes).\<close>

definition agree_except_bodies :: "env \<Rightarrow> env \<Rightarrow> bool" where
  "agree_except_bodies E' E \<longleftrightarrow>
     (\<forall>h r. req_data r = None \<longrightarrow> E' h r = E h r) \<and> (\<forall>h r. (E' h r = None) = (E h r = None))"


section \<open>Frame lemmas\<close>

lemma fs_frame_http [intro!]: "fs_frame (http E r)"
  by (simp add: fs_frame_def http_def split: option.splits)

lemma fs_frame_plift [intro!]: "fs_frame (plift r)"
  by (simp add: fs_frame_def)

lemma fs_frame_preturn [intro!]: "fs_frame (preturn r)"
  by (simp add: fs_frame_def)

lemma fs_frame_pbind [intro]: "fs_frame m \<Longrightarrow> (\<And>a. fs_frame (f a)) \<Longrightarrow> fs_frame (pbind m f)"
  by (auto simp: fs_frame_def split: prod.splits sum.splits) (metis snd_conv)+

lemma fs_frame_pseq [intro]: "fs_frame m \<Longrightarrow> fs_frame k \<Longrightarrow> fs_frame (pseq m k)"
  unfolding pseq_def by blast

lemma fs_frame_if [intro!]: "fs_frame m \<Longrightarrow> fs_frame k \<Longrightarrow> fs_frame (if b then m else k)"
  by simp

lemma fs_frame_py_print [intro!]: "fs_frame (py_print m)"
  by (simp add: fs_frame_def py_print_def)

lemma fs_frame_open_read [intro!]: "fs_frame (open_read p)"
  by (simp add: fs_frame_def open_read_def split: option.splits fentry.splits)

lemma fs_frameD: "fs_frame m \<Longrightarrow> m s = (r, s') \<Longrightarrow> fs s' = fs s"
  by (metis fs_frame_def snd_conv)

text \<open>Which part of the state each call may change.\<close>

lemma http_state: "http E r s = (x, s') \<Longrightarrow> s' = s\<lparr>sent := sent s @ [r]\<rparr>"
  by (auto simp: http_def split: option.splits)

lemma py_print_state [simp]:
  "py_print m s = (x, s') \<longleftrightarrow> x = Inr () \<and> s' = s\<lparr>console := console s @ [m]\<rparr>"
  by (auto simp: py_print_def)

lemma open_read_state: "open_read p s = (x, s') \<Longrightarrow> s' = s"
  by (auto simp: open_read_def split: option.splits fentry.splits)

section \<open>Answers that are not looked at\<close>

lemma http_agree:
  "agree_except_bodies E' E \<Longrightarrow> req_data r = None \<Longrightarrow> http E' r = http E r"
  by (rule ext) (simp add: agree_except_bodies_def http_def)

lemma http_pseq_agree:
  assumes "agree_except_bodies E' E"
  shows "pseq (http E' r) k = pseq (http E r) k"
proof
  fix s :: sys
  have "(E' (sent s) r = None) = (E (sent s) r = None)"
    using assms by (simp add: agree_except_bodies_def)
  then show "pseq (http E' r) k s = pseq (http E r) k s"
    by (auto simp: http_def split: option.splits)
qed

lemmas agree_simps = http_agree http_pseq_agree

section \<open>Frames at one path\<close>

lemma keeps_fs_at_frame [intro]: "fs_frame m \<Longrightarrow> keeps (\<lambda>t. fs t p = c) m"
  by (simp add: keeps_def fs_frame_def)

lemma keeps_fs_at_makedirs [intro]: "q \<noteq> p \<Longrightarrow> keeps (\<lambda>t. fs t p = c) (os_makedirs q)"
  by (simp add: keeps_def os_makedirs_def split: sum.splits)

lemma keeps_fs_at_with_open_write [intro]:
  assumes "q \<noteq> p" and "fs_frame body"
  shows "keeps (\<lambda>t. fs t p = c) (with_open_write q body)"
proof -
  have "keeps (\<lambda>t. fs t p = c) (open_write q)"
    using assms(1) by (auto simp: keeps_def open_write_def split: sum.splits)
  moreover have "keeps (\<lambda>t. fs t p = c) (file_write q b)" for b
    using assms(1) by (simp add: keeps_def file_write_def)
  ultimately show ?thesis
    using assms(2) unfolding with_open_write_def by blast
qed

section \<open>Well-formed file systems\<close>

text \<open>Every entry lies in the working directory or in a directory that exists.\<close>

definition fs_wf :: "sys \<Rightarrow> bool" where
  "fs_wf s \<longleftrightarrow> (\<forall>p e. fs s p = Some e \<longrightarrow> dirname p = [] \<or> fs s (dirname p) = Some Dir)"

lemma parent_state_Inr:
  "parent_state p s = Inr u \<Longrightarrow> dirname p = [] \<or> fs s (dirname p) = Some Dir"
  by (auto simp: parent_state_def split: if_splits option.splits fentry.splits)

text \<open>Adding an entry keeps the file system well formed when its parent exists and it
  does not replace a directory by a file.\<close>

lemma fs_wf_update:
  assumes wf: "fs_wf s"
    and parent: "dirname p = [] \<or> fs s (dirname p) = Some Dir"
    and nodir: "fs s p = Some Dir \<longrightarrow> e = Dir"
  shows "fs_wf (s\<lparr>fs := (fs s)(p \<mapsto> e)\<rparr>)"
proof -
  have "dirname q = [] \<or> ((fs s)(p \<mapsto> e)) (dirname q) = Some Dir"
    if q: "((fs s)(p \<mapsto> e)) q = Some e'" for q e'
  proof (cases "q = p")
    case True
    with parent dirname_self show ?thesis by (cases "dirname p = p") auto
  next
    case False
    with q wf have "dirname q = [] \<or> fs s (dirname q) = Some Dir"
      by (auto simp: fs_wf_def)
    with nodir show ?thesis by auto
  qed
  then show ?thesis by (simp add: fs_wf_def)
qed

lemma fs_wf_keeps_makedirs [intro!]: "keeps fs_wf (os_makedirs p)"
  unfolding keeps_def
proof (intro allI impI)
  fix s
  assume wf: "fs_wf s"
  show "fs_wf (snd (os_makedirs p s))"
  proof (cases "fs s p = None \<and> parent_state p s = Inr ()")
    case True
    with wf show ?thesis by (simp add: os_makedirs_def fs_wf_update parent_state_Inr)
  next
    case False
    with wf show ?thesis by (auto simp: os_makedirs_def split: sum.splits)
  qed
qed

lemma fs_wf_keeps_open_write [intro!]: "keeps fs_wf (open_write p)"
  unfolding keeps_def
proof (intro allI impI)
  fix s
  assume wf: "fs_wf s"
  show "fs_wf (snd (open_write p s))"
  proof (cases "fs s p \<noteq> Some Dir \<and> parent_state p s = Inr ()")
    case True
    with wf show ?thesis by (simp add: open_write_def fs_wf_update parent_state_Inr)
  next
    case False
    with wf show ?thesis by (auto simp: open_write_def split: sum.splits)
  qed
qed

lemma fs_wf_write_existing:
  "fs_wf s \<Longrightarrow> fs s p = Some (File b0) \<Longrightarrow> fs_wf (snd (file_write p b s))"
  unfolding file_write_def snd_conv
  by (rule fs_wf_update) (auto simp: fs_wf_def)

lemma fs_wf_fs_eq: "fs s = fs t \<Longrightarrow> fs_wf s = fs_wf t"
  by (simp add: fs_wf_def)

lemma fs_wf_console [simp]: "fs_wf (s\<lparr>console := x\<rparr>) = fs_wf s"
  by (simp add: fs_wf_def)

lemma fs_wf_keeps_with_open_write [intro!]:
  assumes "fs_frame body"
  shows "keeps fs_wf (with_open_write p body)"
  unfolding keeps_def
proof (intro allI impI)
  fix s
  assume wf: "fs_wf s"
  show "fs_wf (snd (with_open_write p body s))"
  proof (cases "open_write p s")
    case (Pair r s1)
    have wf1: "fs_wf s1" using keepsD [OF fs_wf_keeps_open_write wf Pair] .
    show ?thesis
    proof (cases r)
      case (Inl e)
      with Pair wf1 show ?thesis by (simp add: with_open_write_def)
    next
      case (Inr u)
      with Pair have f: "fs s1 p = Some (File [])"
        by (auto simp: open_write_def split: sum.splits if_splits)
      obtain x s2 where body: "body s1 = (x, s2)" by fastforce
      with assms have fs2: "fs s2 = fs s1" by (metis fs_frame_def snd_conv)
      have wf2: "fs_wf s2" using wf1 fs2 fs_wf_fs_eq by blast
      have "fs_wf (snd (file_write p b s2))" for b
        using wf2 f fs2 by (intro fs_wf_write_existing) simp_all
      with Pair Inr body wf2 show ?thesis
        by (cases x) (simp_all add: with_open_write_def pseq_def)
    qed
  qed
qed

lemma fs_wf_keeps_open_read [intro!]: "keeps fs_wf (open_read p)"
  by (auto simp: keeps_def open_read_def split: option.splits fentry.splits)

lemma fs_wf_keeps_print [intro!]: "keeps fs_wf (py_print m)"
  by (simp add: keeps_def fs_wf_def py_print_def)

lemma fs_wf_keeps_http [intro!]: "keeps fs_wf (http E r)"
  by (simp add: keeps_def fs_wf_def http_def split: option.splits)

end
