(* ===== verification/Size_Selector.thy ===== *)
theory Size_Selector
  imports Py_Json
begin

text \<open>
  The size selector, line 42 of \<open>src/program.py\<close>:
  \<^verbatim>\<open>max_size_photo = max(sizes, key=lambda x: x['height'] * x['width'])\<close>
  The key function is \<open>size_area\<close>; \<open>py_max_key\<close> is the built-in \<open>max\<close> with a key
  as CPython runs it: it iterates the argument, computes the key of each item in order,
  keeps the first item, and replaces the kept item only when a later key compares
  strictly greater; an empty sequence raises \<open>ValueError\<close>, and an exception of the key
  or of the comparison ends the call.
  The theorems show that on a list of well-formed sizes (a dict with integer
  \<open>height\<close> and \<open>width\<close>) the selector returns the first size of maximal area, and that
  it agrees with an independent right-to-left reference \<open>argmax_first\<close>.
\<close>

section \<open>The key and the built-in max\<close>

definition size_area :: "json \<Rightarrow> exn + json" where
  "size_area x =
     sbind (py_getitem x ''height'') (\<lambda>h. sbind (py_getitem x ''width'') (\<lambda>w. py_mul h w))"

fun max_key_from :: "(json \<Rightarrow> exn + json) \<Rightarrow> json \<Rightarrow> json \<Rightarrow> json list \<Rightarrow> exn + json" where
  "max_key_from key best kbest [] = Inr best"
| "max_key_from key best kbest (x # xs) =
     sbind (key x) (\<lambda>kx. sbind (py_gt kx kbest) (\<lambda>gt.
       if gt then max_key_from key x kx xs else max_key_from key best kbest xs))"

definition py_max_key :: "(json \<Rightarrow> exn + json) \<Rightarrow> json \<Rightarrow> exn + json" where
  "py_max_key key v =
     sbind (py_iter v) (\<lambda>items.
       case items of
         [] \<Rightarrow> Inl ValueError
       | x # xs \<Rightarrow> sbind (key x) (\<lambda>kx. max_key_from key x kx xs))"

definition select_best :: "json \<Rightarrow> exn + json" where
  "select_best sizes = py_max_key size_area sizes"

section \<open>Well-formed sizes\<close>

text \<open>A size whose key is an integer, and that integer.\<close>

definition size_ok :: "json \<Rightarrow> bool" where
  "size_ok x = (case size_area x of Inr (JInt _) \<Rightarrow> True | _ \<Rightarrow> False)"

definition area_of :: "json \<Rightarrow> int" where
  "area_of x = (case size_area x of Inr (JInt n) \<Rightarrow> n | _ \<Rightarrow> 0)"

section \<open>Reference: the first maximum, computed from the right\<close>

fun argmax_first :: "('a \<Rightarrow> int) \<Rightarrow> 'a \<Rightarrow> 'a list \<Rightarrow> 'a" where
  "argmax_first f x [] = x"
| "argmax_first f x (y # ys) = (let m = argmax_first f y ys in if f x < f m then m else x)"

section \<open>Lemmas\<close>

lemma size_area_ok: "size_ok x \<Longrightarrow> size_area x = Inr (JInt (area_of x))"
  by (auto simp: size_ok_def area_of_def split: sum.splits json.splits)

lemma size_area_dims:
  "size_area (JDict [(''height'', JInt h), (''width'', JInt w)] ) = Inr (JInt (h * w))"
  by (simp add: size_area_def)

lemma argmax_first_ge: "f x \<le> f (argmax_first f x xs)"
  by (induction xs arbitrary: x) (auto simp: Let_def)

lemma argmax_first_max: "y \<in> set (x # xs) \<Longrightarrow> f y \<le> f (argmax_first f x xs)"
proof (induction xs arbitrary: x)
  case Nil
  then show ?case by simp
next
  case (Cons z zs)
  have "f y \<le> f (argmax_first f z zs) \<or> y = x"
    using Cons by auto
  then show ?case by (auto simp: Let_def)
qed

text \<open>The reference picks an element of the list that no element exceeds and that every
  element before it is strictly below: the first maximum.\<close>

lemma argmax_first_split:
  "\<exists>ys zs. x # xs = ys @ argmax_first f x xs # zs \<and>
           (\<forall>y \<in> set ys. f y < f (argmax_first f x xs))"
proof (induction xs arbitrary: x)
  case Nil
  show ?case by (auto intro!: exI [of _ "[]"])
next
  case (Cons z zs)
  show ?case
  proof (cases "f x < f (argmax_first f z zs)")
    case True
    let ?m = "argmax_first f z zs"
    from Cons.IH obtain ys ws where
      split: "z # zs = ys @ ?m # ws" and below: "\<forall>y \<in> set ys. f y < f ?m"
      by blast
    have eq: "argmax_first f x (z # zs) = ?m" using True by (simp add: Let_def)
    have "x # z # zs = (x # ys) @ ?m # ws" using split by simp
    moreover have "\<forall>y \<in> set (x # ys). f y < f ?m" using True below by simp
    ultimately show ?thesis unfolding eq by blast
  next
    case False
    then have eq: "argmax_first f x (z # zs) = x" by (simp add: Let_def)
    have "x # z # zs = [] @ x # (z # zs) \<and> (\<forall>y \<in> set []. f y < f x)" by simp
    then show ?thesis unfolding eq by blast
  qed
qed

section \<open>The loop against the reference\<close>

lemma max_key_from_argmax:
  "list_all size_ok xs \<Longrightarrow>
   max_key_from size_area b (JInt (area_of b)) xs = Inr (argmax_first area_of b xs)"
proof (induction xs arbitrary: b)
  case Nil
  then show ?case by simp
next
  case (Cons y ys)
  then have y: "size_area y = Inr (JInt (area_of y))" and ys: "list_all size_ok ys"
    by (simp_all add: size_area_ok)
  show ?case
  proof (cases "area_of b < area_of y")
    case True
    have "area_of y \<le> area_of (argmax_first area_of y ys)" by (rule argmax_first_ge)
    with True y Cons.IH [OF ys] show ?thesis by (simp add: Let_def)
  next
    case False
    have "argmax_first area_of b (y # ys) = argmax_first area_of b ys"
    proof (cases ys)
      case Nil
      with False show ?thesis by simp
    next
      case (Cons z zs)
      have "area_of (argmax_first area_of z zs) \<le> area_of (argmax_first area_of y ys)"
        using argmax_first_max [of "argmax_first area_of z zs" y ys area_of]
        by (simp add: Cons Let_def split: if_splits)
      with False Cons show ?thesis by (auto simp: Let_def)
    qed
    with False y Cons.IH [OF ys] show ?thesis by simp
  qed
qed

section \<open>The selector\<close>

lemma select_best_cons:
  "list_all size_ok (x # xs) \<Longrightarrow> select_best (JList (x # xs)) = Inr (argmax_first area_of x xs)"
  by (simp add: select_best_def py_max_key_def size_area_ok max_key_from_argmax)

text \<open>Claim C3. On a non-empty list of sizes whose heights and widths are integers,
  \<open>max(sizes, key=...)\<close> returns a size of maximal area, and every size before it
  in the list has a strictly smaller area: of equal areas the first one wins.\<close>

theorem select_best_first_max:
  assumes "list_all size_ok (x # xs)"
  shows "\<exists>best ys zs. select_best (JList (x # xs)) = Inr best \<and> x # xs = ys @ best # zs \<and>
           (\<forall>y \<in> set ys. area_of y < area_of best) \<and>
           (\<forall>y \<in> set (x # xs). area_of y \<le> area_of best)"
proof -
  let ?b = "argmax_first area_of x xs"
  obtain ys zs where "x # xs = ys @ ?b # zs" and "\<forall>y \<in> set ys. area_of y < area_of ?b"
    using argmax_first_split [of x xs area_of] by blast
  moreover have "\<forall>y \<in> set (x # xs). area_of y \<le> area_of ?b"
    using argmax_first_max [of _ x xs area_of] by blast
  moreover have "select_best (JList (x # xs)) = Inr ?b"
    using assms by (rule select_best_cons)
  ultimately show ?thesis by blast
qed

theorem select_best_first_max_witness:
  "list_all size_ok [JDict [(''url'', JStr ''u1''), (''width'', JInt 100), (''height'', JInt 100), (''type'', JStr ''m'')],
                     JDict [(''url'', JStr ''u2''), (''width'', JInt 400), (''height'', JInt 300), (''type'', JStr ''x'')]] \<and>
   (\<exists>best ys zs. select_best (JList [JDict [(''url'', JStr ''u1''), (''width'', JInt 100), (''height'', JInt 100), (''type'', JStr ''m'')],
                                    JDict [(''url'', JStr ''u2''), (''width'', JInt 400), (''height'', JInt 300), (''type'', JStr ''x'')]]) = Inr best \<and>
      [JDict [(''url'', JStr ''u1''), (''width'', JInt 100), (''height'', JInt 100), (''type'', JStr ''m'')],
       JDict [(''url'', JStr ''u2''), (''width'', JInt 400), (''height'', JInt 300), (''type'', JStr ''x'')]] = ys @ best # zs \<and>
      (\<forall>y \<in> set ys. area_of y < area_of best) \<and>
      (\<forall>y \<in> set [JDict [(''url'', JStr ''u1''), (''width'', JInt 100), (''height'', JInt 100), (''type'', JStr ''m'')],
                   JDict [(''url'', JStr ''u2''), (''width'', JInt 400), (''height'', JInt 300), (''type'', JStr ''x'')]]. area_of y \<le> area_of best))"
proof -
  have h: "list_all size_ok [JDict [(''url'', JStr ''u1''), (''width'', JInt 100), (''height'', JInt 100), (''type'', JStr ''m'')],
                             JDict [(''url'', JStr ''u2''), (''width'', JInt 400), (''height'', JInt 300), (''type'', JStr ''x'')]]"
    by (simp add: size_ok_def size_area_def)
  from h select_best_first_max [OF h] show ?thesis by blast
qed

end
