(* ===== verification/Vk_Downloader.thy ===== *)
theory Vk_Downloader
  imports Io_World Size_Selector
begin

text \<open>
  The source side of the pipeline, class \<open>VkDownloader\<close> of \<open>src/program.py\<close>
  (lines 6--49).  The object holds the user id and the access token (\<open>__init__\<close>);
  \<open>get_photos\<close> sends one \<open>photos.get\<close> request and returns the parsed JSON body;
  \<open>download_photos\<close> reads \<open>data['response']['items']\<close> (a \<open>KeyError\<close> there is
  caught: the payload is printed and the empty list returned), makes sure the staging
  directory \<open>images_vk\<close> exists, and for every photo either skips it (falsy \<open>sizes\<close>,
  after printing its likes count) or selects its largest size, opens
  \<open>images_vk/<likes>.jpg\<close> for writing, downloads the size's URL into it and appends
  the record \<open>{'file_name': ..., 'size': type}\<close> to the result.
  Every other exception propagates out of \<open>download_photos\<close>, leaving the state as
  it was when it was raised.
\<close>

record vk_downloader =
  user_id :: string
  vk_token :: string

record transfer =
  tr_file_name :: string
  tr_size :: json

definition vk_photos_url :: string where
  "vk_photos_url = ''https://api.vk.com/method/photos.get''"

definition get_photos_request :: "vk_downloader \<Rightarrow> nat \<Rightarrow> nat \<Rightarrow> request" where
  "get_photos_request self offset count =
     \<lparr>req_method = GET, req_url = vk_photos_url, req_headers = [],
      req_params = [(''owner_id'', user_id self), (''album_id'', ''profile''),
                    (''access_token'', vk_token self), (''v'', ''5.131''),
                    (''extended'', ''1''), (''photo_sizes'', ''1''),
                    (''count'', dec_nat count), (''offset'', dec_nat offset)],
      req_data = None\<rparr>"

definition get_photos :: "env \<Rightarrow> vk_downloader \<Rightarrow> nat \<Rightarrow> nat \<Rightarrow> json io" where
  "get_photos E self offset count =
     pbind (http E (get_photos_request self offset count)) (\<lambda>res. plift (resp_json_call res))"

definition images_dir :: string where
  "images_dir = ''images_vk''"

definition staging_path :: "string \<Rightarrow> string" where
  "staging_path f = path_join images_dir f"

text \<open>\<open>requests.get(url)\<close> with no headers or parameters.\<close>

definition get_url :: "string \<Rightarrow> request" where
  "get_url u = \<lparr>req_method = GET, req_url = u, req_headers = [], req_params = [], req_data = None\<rparr>"

text \<open>\<open>photo['likes']['count']\<close>, evaluated on lines 40 and 44.\<close>

definition photo_likes :: "json \<Rightarrow> exn + json" where
  "photo_likes photo = sbind (py_getitem photo ''likes'') (\<lambda>l. py_getitem l ''count'')"

text \<open>The body of the loop, lines 38--48; \<open>None\<close> is the \<open>continue\<close> of line 41.\<close>

definition download_photo :: "env \<Rightarrow> json \<Rightarrow> transfer option io" where
  "download_photo E photo =
     pbind (plift (py_dict_get photo ''sizes'')) (\<lambda>sizes.
       if \<not> py_truthy sizes then
         pbind (plift (photo_likes photo)) (\<lambda>cnt.
           pseq (py_print (MsgNoSizes (py_str cnt))) (preturn None))
       else
         pbind (plift (select_best sizes)) (\<lambda>best.
         pbind (plift (py_getitem best ''url'')) (\<lambda>url.
         pbind (plift (photo_likes photo)) (\<lambda>cnt.
           let file_name = py_str cnt @ ''.jpg'' in
           pseq (with_open_write (staging_path file_name)
                  (pbind (http E (get_url (py_str url))) (\<lambda>img. preturn (content img))))
           (pbind (plift (py_getitem best ''type'')) (\<lambda>ty.
              preturn (Some \<lparr>tr_file_name = file_name, tr_size = ty\<rparr>)))))))"

text \<open>The loop of line 37 with the list \<open>photos\<close> it appends to.\<close>

fun download_loop :: "env \<Rightarrow> json list \<Rightarrow> transfer list \<Rightarrow> transfer list io" where
  "download_loop E [] acc = preturn acc"
| "download_loop E (p # ps) acc =
     pbind (download_photo E p) (\<lambda>r.
       download_loop E ps (case r of None \<Rightarrow> acc | Some t \<Rightarrow> acc @ [t]))"

text \<open>Lines 35--36.\<close>

definition ensure_images_dir :: "unit io" where
  "ensure_images_dir s =
     (if os_path_exists images_dir s then (Inr (), s) else os_makedirs images_dir s)"

text \<open>\<open>data['response']['items']\<close>, line 30.\<close>

definition catalog_items :: "json \<Rightarrow> exn + json" where
  "catalog_items data = sbind (py_getitem data ''response'') (\<lambda>r. py_getitem r ''items'')"

definition download_photos :: "env \<Rightarrow> vk_downloader \<Rightarrow> transfer list io" where
  "download_photos E self =
     pbind (get_photos E self 0 5) (\<lambda>data.
       case catalog_items data of
         Inl e \<Rightarrow> (if e = KeyError then pseq (py_print (MsgPhotosError data)) (preturn [])
                   else praise e)
       | Inr items \<Rightarrow>
           pseq ensure_images_dir
             (pbind (plift (py_iter items)) (\<lambda>photos. download_loop E photos [])))"

section \<open>The catalog as the specification describes it\<close>

text \<open>The data model of the specification: a photo record is its likes count (the
  naming key) and its ordered size variants; the VK API sends each photo as a dict with a
  \<open>sizes\<close> list and a nested \<open>likes.count\<close>.  The specification's transfer of one
  photo is \<open>spec_transfer\<close>: nothing for a photo without variants, otherwise the file
  name \<open><likes>.jpg\<close> and the label of the first variant of largest area.\<close>

record size_variant =
  sv_url :: string
  sv_width :: int
  sv_height :: int
  sv_type :: string

record photo_record =
  pr_likes :: int
  pr_sizes :: "size_variant list"

definition variant_json :: "size_variant \<Rightarrow> json" where
  "variant_json v = JDict [(''height'', JInt (sv_height v)), (''url'', JStr (sv_url v)),
                        (''type'', JStr (sv_type v)), (''width'', JInt (sv_width v))]"

definition photo_json :: "photo_record \<Rightarrow> json" where
  "photo_json p = JDict [(''sizes'', JList (map variant_json (pr_sizes p))),
                         (''likes'', JDict [(''count'', JInt (pr_likes p))])]"

definition catalog_json :: "photo_record list \<Rightarrow> json" where
  "catalog_json ps = JDict [(''response'', JDict [(''count'', JInt (int (length ps))),
                                                 (''items'', JList (map photo_json ps))])]"

definition variant_area :: "size_variant \<Rightarrow> int" where
  "variant_area v = sv_height v * sv_width v"

definition spec_file_name :: "int \<Rightarrow> string" where
  "spec_file_name likes = dec_int likes @ ''.jpg''"

definition spec_transfer :: "photo_record \<Rightarrow> transfer option" where
  "spec_transfer p =
     (case pr_sizes p of
        [] \<Rightarrow> None
      | v # vs \<Rightarrow> Some \<lparr>tr_file_name = spec_file_name (pr_likes p),
                         tr_size = JStr (sv_type (argmax_first variant_area v vs))\<rparr>)"

fun spec_transfers :: "photo_record list \<Rightarrow> transfer list" where
  "spec_transfers [] = []"
| "spec_transfers (p # ps) =
     (case spec_transfer p of None \<Rightarrow> spec_transfers ps | Some t \<Rightarrow> t # spec_transfers ps)"

text \<open>Environments whose image hosts always answer, and staging areas where no
  directory is in the way of a staged file.\<close>

definition serves_images :: "env \<Rightarrow> bool" where
  "serves_images E \<longleftrightarrow> (\<forall>h u. E h (get_url u) \<noteq> None)"

definition staging_ready :: "sys \<Rightarrow> bool" where
  "staging_ready s \<longleftrightarrow> fs s images_dir = Some Dir \<and> (\<forall>f. fs s (staging_path f) \<noteq> Some Dir)"

definition staging_free :: "sys \<Rightarrow> bool" where
  "staging_free s \<longleftrightarrow> (fs s images_dir = None \<or> fs s images_dir = Some Dir) \<and>
                      (\<forall>f. fs s (staging_path f) \<noteq> Some Dir)"

definition is_file :: "sys \<Rightarrow> string \<Rightarrow> bool" where
  "is_file s p \<longleftrightarrow> (\<exists>b. fs s p = Some (File b))"

definition files_kept :: "sys \<Rightarrow> sys \<Rightarrow> bool" where
  "files_kept s s' \<longleftrightarrow> (\<forall>p. is_file s p \<longrightarrow> is_file s' p)"

text \<open>The equations that evaluate a download on a concrete catalog.\<close>

lemmas download_eval_simps =
  download_photos_def get_photos_def get_photos_request_def vk_photos_url_def catalog_items_def
  ensure_images_dir_def images_dir_def download_photo_def select_best_def py_max_key_def
  size_area_def staging_path_def path_join_def photo_likes_def get_url_def io_defs dirname_def
  Let_def dec_int_def dec_nat.simps digit_chars_def

text \<open>Environments whose image hosts answer each URL with the bytes \<open>img u\<close>, and
  the image that ends up under the name for a likes count: the one of the last photo with
  that count and with variants.\<close>

definition serves_content :: "env \<Rightarrow> (string \<Rightarrow> bytes) \<Rightarrow> bool" where
  "serves_content E img \<longleftrightarrow> (\<forall>h u. \<exists>r. E h (get_url u) = Some r \<and> content r = img u)"

fun last_image :: "(string \<Rightarrow> bytes) \<Rightarrow> photo_record list \<Rightarrow> int \<Rightarrow> bytes option" where
  "last_image img [] l = None"
| "last_image img (p # ps) l =
     (case last_image img ps l of
        Some b \<Rightarrow> Some b
      | None \<Rightarrow> (case pr_sizes p of
                  [] \<Rightarrow> None
                | v # vs \<Rightarrow> if pr_likes p = l then Some (img (sv_url (argmax_first variant_area v vs)))
                            else None))"

section \<open>Lemmas: the selector on encoded sizes\<close>

lemma variant_json_ok [simp]: "size_ok (variant_json v)"
  by (simp add: size_ok_def variant_json_def size_area_def)

lemma area_of_variant_json [simp]: "area_of (variant_json v) = variant_area v"
  by (simp add: area_of_def variant_json_def size_area_def variant_area_def)

lemma argmax_first_map:
  "argmax_first f (g x) (map g xs) = g (argmax_first (\<lambda>y. f (g y)) x xs)"
  by (induction xs arbitrary: x) (simp_all add: Let_def)

lemma select_best_sizes:
  "select_best (JList (variant_json v # map variant_json vs)) =
     Inr (variant_json (argmax_first variant_area v vs))"
proof -
  have "list_all size_ok (variant_json v # map variant_json vs)" by (simp add: list_all_iff)
  then have "select_best (JList (variant_json v # map variant_json vs)) =
               Inr (argmax_first area_of (variant_json v) (map variant_json vs))"
    by (rule select_best_cons)
  then show ?thesis by (simp add: argmax_first_map)
qed

section \<open>Lemmas: file names\<close>

lemma slash_not_in_spec_file_name: "CHR ''/'' \<notin> set (spec_file_name n)"
proof
  assume "CHR ''/'' \<in> set (spec_file_name n)"
  then have "CHR ''/'' \<in> set (dec_nat (nat \<bar>n\<bar>))"
    by (auto simp: spec_file_name_def dec_int_def split: if_splits)
  then have "CHR ''/'' \<in> set digit_chars" by (rule dec_nat_digits)
  then show False by (simp add: digit_chars_def)
qed

lemma dirname_staging_path: "CHR ''/'' \<notin> set f \<Longrightarrow> dirname (staging_path f) = images_dir"
  by (simp add: staging_path_def dirname_path_join)

lemma staging_path_ne_dir: "staging_path f \<noteq> images_dir"
  by (simp add: staging_path_def path_join_def images_dir_def)

lemma images_dir_nonempty [simp]: "images_dir \<noteq> []"
  by (simp add: images_dir_def)

lemma spec_file_name_inj: "spec_file_name l = spec_file_name l' \<Longrightarrow> l = l'"
  using minus_not_digit
  by (auto simp: spec_file_name_def dec_int_def dest!: dec_nat_inj split: if_splits) (metis)+


lemma staging_spec_eq:
  "staging_path (spec_file_name a) = staging_path (spec_file_name b) \<longleftrightarrow> a = b"
  by (auto simp: staging_path_def path_join_def dest: spec_file_name_inj)

section \<open>Lemmas: one photo, the loop, the whole download\<close>

lemma staging_ready_file:
  "staging_ready s \<Longrightarrow> staging_ready (t\<lparr>fs := (fs s)(staging_path f \<mapsto> File b)\<rparr>)"
  using staging_path_ne_dir [of f] by (auto simp: staging_ready_def)

lemma photo_json_fields:
  "py_dict_get (photo_json p) ''sizes'' = Inr (JList (map variant_json (pr_sizes p)))"
  "photo_likes (photo_json p) = Inr (JInt (pr_likes p))"
  by (simp_all add: photo_json_def photo_likes_def)

lemma variant_json_fields:
  "py_getitem (variant_json v) ''url'' = Inr (JStr (sv_url v))"
  "py_getitem (variant_json v) ''type'' = Inr (JStr (sv_type v))"
  by (simp_all add: variant_json_def)

lemma open_write_staged:
  assumes "staging_ready s" and "CHR ''/'' \<notin> set f"
  shows "open_write (staging_path f) s = (Inr (), s\<lparr>fs := (fs s)(staging_path f \<mapsto> File [])\<rparr>)"
  using assms by (simp add: open_write_def parent_state_def staging_ready_def dirname_staging_path)

lemma download_photo_spec:
  assumes ready: "staging_ready s" and serve: "serves_images E"
  shows "\<exists>s'. download_photo E (photo_json p) s = (Inr (spec_transfer p), s') \<and> staging_ready s'"
proof (cases "pr_sizes p")
  case Nil
  with ready show ?thesis
    by (simp add: download_photo_def photo_json_fields spec_transfer_def py_print_def staging_ready_def)
next
  case (Cons v vs)
  let ?f = "spec_file_name (pr_likes p)"
  let ?b = "argmax_first variant_area v vs"
  obtain img where img: "E (sent s) (get_url (sv_url ?b)) = Some img"
    using serve by (auto simp: serves_images_def)
  have ow: "open_write (staging_path ?f) s = (Inr (), s\<lparr>fs := (fs s)(staging_path ?f \<mapsto> File [])\<rparr>)"
    using ready slash_not_in_spec_file_name by (rule open_write_staged)
  from Cons ow img ready show ?thesis
    by (simp add: download_photo_def photo_json_fields select_best_sizes variant_json_fields
                  http_def with_open_write_def file_write_def spec_transfer_def staging_ready_file Let_def spec_file_name_def)
qed
lemma download_loop_spec:
  assumes "staging_ready s" and "serves_images E"
  shows "\<exists>s'. download_loop E (map photo_json ps) acc s = (Inr (acc @ spec_transfers ps), s') \<and>
              staging_ready s'"
  using assms(1)
proof (induction ps arbitrary: acc s)
  case Nil
  then show ?case by simp
next
  case (Cons p ps)
  obtain s1 where step: "download_photo E (photo_json p) s = (Inr (spec_transfer p), s1)"
    and ready1: "staging_ready s1"
    using download_photo_spec [OF Cons.prems assms(2)] by blast
  let ?acc = "case spec_transfer p of None \<Rightarrow> acc | Some t \<Rightarrow> acc @ [t]"
  obtain s2 where "download_loop E (map photo_json ps) ?acc s1 = (Inr (?acc @ spec_transfers ps), s2)"
    and "staging_ready s2"
    using Cons.IH [OF ready1] by blast
  with step show ?case by (auto split: option.splits)
qed

lemma ensure_images_dir_ready:
  assumes "staging_free s"
  shows "\<exists>s'. ensure_images_dir s = (Inr (), s') \<and> staging_ready s'"
proof (cases "fs s images_dir")
  case None
  have "dirname images_dir = []" by (simp add: images_dir_def dirname_def)
  with None assms show ?thesis
    by (auto simp: ensure_images_dir_def os_path_exists_def os_makedirs_def parent_state_def
                   staging_free_def staging_ready_def staging_path_ne_dir)
next
  case (Some e)
  with assms show ?thesis
    by (auto simp: ensure_images_dir_def os_path_exists_def staging_free_def staging_ready_def)
qed

lemma catalog_items_json: "catalog_items (catalog_json ps) = Inr (JList (map photo_json ps))"
  by (simp add: catalog_items_def catalog_json_def)

section \<open>Lemmas: the download keeps the file system well formed\<close>

lemma keeps_fs_wf_download_photo [intro!]: "keeps fs_wf (download_photo E p)"
  unfolding download_photo_def Let_def by blast

lemma keeps_fs_wf_download_loop [intro!]: "keeps fs_wf (download_loop E ps acc)"
  by (induction ps arbitrary: acc) auto

lemma keeps_fs_wf_ensure_images_dir [intro!]: "keeps fs_wf ensure_images_dir"
  using fs_wf_keeps_makedirs by (auto simp: keeps_def ensure_images_dir_def)

lemma keeps_fs_wf_get_photos [intro!]: "keeps fs_wf (get_photos E self offset count)"
  unfolding get_photos_def by blast

lemma keeps_fs_wf_download_photos [intro!]: "keeps fs_wf (download_photos E self)"
  unfolding download_photos_def get_photos_def
  by (intro keeps_pbind allI; auto split: sum.splits)

text \<open>Claim C1.  Refinement of the source side: when the catalog answer is the JSON
  encoding of a list of photo records, every image download is answered and no directory
  sits where a staged file goes, \<open>download_photos\<close> returns exactly the transfer
  records of the specification: one per photo with at least one size variant, in catalog
  order, named \<open><likes>.jpg\<close> and labelled with the type of the first variant of largest
  area; photos without variants are skipped.\<close>

theorem download_photos_refines:
  assumes "E (sent s) (get_photos_request self 0 5) = Some r"
    and "resp_json r = Some (catalog_json ps)"
    and "serves_images E" and "staging_free s"
  shows "fst (download_photos E self s) = Inr (spec_transfers ps)"
proof -
  let ?s1 = "s\<lparr>sent := sent s @ [get_photos_request self 0 5]\<rparr>"
  have got: "get_photos E self 0 5 s = (Inr (catalog_json ps), ?s1)"
    using assms(1,2) by (simp add: get_photos_def http_def resp_json_call_def)
  have "staging_free ?s1" using assms(4) by (simp add: staging_free_def)
  then obtain s2 where ens: "ensure_images_dir ?s1 = (Inr (), s2)" and "staging_ready s2"
    using ensure_images_dir_ready by blast
  then obtain s3 where "download_loop E (map photo_json ps) [] s2 = (Inr (spec_transfers ps), s3)"
    using download_loop_spec [OF _ assms(3), of s2 ps "[]"] by auto
  with got ens show ?thesis
    by (simp add: download_photos_def catalog_items_json)
qed

theorem download_photos_refines_witness:
  "fst (download_photos
          (\<lambda>h r. Some \<lparr>status_code = 200, content = req_url r, resp_text = [],
                        resp_json = Some (catalog_json
                          [\<lparr>pr_likes = 42, pr_sizes =
                             [\<lparr>sv_url = ''u1'', sv_width = 100, sv_height = 100, sv_type = ''m''\<rparr>,
                              \<lparr>sv_url = ''u2'', sv_width = 400, sv_height = 300, sv_type = ''x''\<rparr>]\<rparr>])\<rparr>)
          \<lparr>user_id = ''1'', vk_token = ''t''\<rparr>
          \<lparr>fs = Map.empty, console = [], sent = []\<rparr>)
   = Inr [\<lparr>tr_file_name = ''42.jpg'', tr_size = JStr ''x''\<rparr>]"
  (is "fst (download_photos ?E ?self ?s) = ?res")
proof -
  let ?ps = "[\<lparr>pr_likes = 42, pr_sizes =
               [\<lparr>sv_url = ''u1'', sv_width = 100, sv_height = 100, sv_type = ''m''\<rparr>,
                \<lparr>sv_url = ''u2'', sv_width = 400, sv_height = 300, sv_type = ''x''\<rparr>]\<rparr>]"
  let ?r = "\<lparr>status_code = 200, content = vk_photos_url, resp_text = [],
             resp_json = Some (catalog_json ?ps)\<rparr>"
  have h1: "?E (sent ?s) (get_photos_request ?self 0 5) = Some ?r"
    by (simp add: get_photos_request_def)
  have h2: "resp_json ?r = Some (catalog_json ?ps)" by simp
  have h3: "serves_images ?E" by (simp add: serves_images_def)
  have h4: "staging_free ?s" by (simp add: staging_free_def)
  have "spec_transfers ?ps = [\<lparr>tr_file_name = ''42.jpg'', tr_size = JStr ''x''\<rparr>]"
    by (simp add: spec_transfer_def variant_area_def spec_file_name_def dec_int_def
                  dec_nat.simps digit_chars_def)
  with download_photos_refines [OF h1 h2 h3 h4] show ?thesis by simp
qed

text \<open>Claim C15.  The catalog call's error path: when \<open>data['response']['items']\<close>
  fails, a \<open>KeyError\<close> (the VK error payload has no \<open>response\<close>) prints the payload and
  returns the empty list, with no directory created and no further request; any other
  exception of that expression (a \<open>response\<close> that is not a dict) escapes
  \<open>download_photos\<close>.\<close>

theorem download_photos_catalog_error:
  assumes "E (sent s) (get_photos_request self 0 5) = Some r"
    and "resp_json r = Some data"
    and "catalog_items data = Inl e"
  shows "download_photos E self s =
           (if e = KeyError
            then (Inr [], s\<lparr>sent := sent s @ [get_photos_request self 0 5],
                             console := console s @ [MsgPhotosError data]\<rparr>)
            else (Inl e, s\<lparr>sent := sent s @ [get_photos_request self 0 5]\<rparr>))"
  using assms
  by (simp add: download_photos_def get_photos_def http_def resp_json_call_def py_print_def)

theorem download_photos_catalog_error_witness:
  "download_photos (\<lambda>h r. Some \<lparr>status_code = 200, content = [], resp_text = [],
                               resp_json = Some (JDict [(''error'', JDict [])])\<rparr>)
      \<lparr>user_id = ''1'', vk_token = ''t''\<rparr> \<lparr>fs = Map.empty, console = [], sent = []\<rparr> =
   (Inr [], \<lparr>fs = Map.empty, console = [MsgPhotosError (JDict [(''error'', JDict [])])],
             sent = [get_photos_request \<lparr>user_id = ''1'', vk_token = ''t''\<rparr> 0 5]\<rparr>)"
  (is "download_photos ?E ?self ?s = ?rhs")
proof -
  let ?data = "JDict [(''error'', JDict [])]"
  let ?r = "\<lparr>status_code = 200, content = [], resp_text = [], resp_json = Some ?data\<rparr>"
  have h1: "?E (sent ?s) (get_photos_request ?self 0 5) = Some ?r" by simp
  have h2: "resp_json ?r = Some ?data" by simp
  have h3: "catalog_items ?data = Inl KeyError" by (simp add: catalog_items_def)
  from download_photos_catalog_error [OF h1 h2 h3] show ?thesis by simp
qed
lemma open_write_files_kept: "open_write p s = (r, s') \<Longrightarrow> files_kept s s' \<and> (r = Inr () \<longrightarrow> is_file s' p)"
  by (auto simp: open_write_def files_kept_def is_file_def split: sum.splits if_splits)

lemma download_photo_staged:
  assumes "download_photo E p s = (Inr r, s')"
  shows "files_kept s s' \<and> (\<forall>t. r = Some t \<longrightarrow> is_file s' (staging_path (tr_file_name t)))"
  using assms
  by (auto simp: download_photo_def Let_def open_write_def with_open_write_def file_write_def http_def py_print_def
                 files_kept_def is_file_def
           split: sum.splits if_splits option.splits prod.splits)
lemma download_loop_staged:
  "download_loop E ps acc s = (Inr res, s') \<Longrightarrow>
   \<forall>t \<in> set acc. is_file s (staging_path (tr_file_name t)) \<Longrightarrow>
   \<forall>t \<in> set res. is_file s' (staging_path (tr_file_name t))"
proof (induction ps arbitrary: acc s)
  case Nil
  then show ?case by simp
next
  case (Cons p ps)
  obtain x s1 where step: "download_photo E p s = (x, s1)" by fastforce
  with Cons.prems(1) obtain r where x: "x = Inr r"
    by (cases x) auto
  let ?acc = "case r of None \<Rightarrow> acc | Some t \<Rightarrow> acc @ [t]"
  from step x have "files_kept s s1 \<and> (\<forall>t. r = Some t \<longrightarrow> is_file s1 (staging_path (tr_file_name t)))"
    by (simp add: download_photo_staged)
  with Cons.prems(2) have "\<forall>t \<in> set ?acc. is_file s1 (staging_path (tr_file_name t))"
    by (auto simp: files_kept_def split: option.splits)
  moreover from Cons.prems(1) step x have "download_loop E ps ?acc s1 = (Inr res, s')" by simp
  ultimately show ?case by (rule Cons.IH [rotated])
qed

text \<open>Claim C13.  The staging invariant of the specification: whenever
  \<open>download_photos\<close> returns, every transfer record it returns names a file that exists
  in \<open>images_vk\<close> at that moment.\<close>

theorem download_photos_staged:
  assumes "download_photos E self s = (Inr photos, s')"
  shows "\<forall>t \<in> set photos. is_file s' (staging_path (tr_file_name t))"
proof -
  obtain x s1 where got: "get_photos E self 0 5 s = (x, s1)" by fastforce
  with assms obtain data where x: "x = Inr data" by (cases x) (auto simp: download_photos_def)
  show ?thesis
  proof (cases "catalog_items data")
    case (Inl e)
    with assms got x show ?thesis
      by (auto simp: download_photos_def py_print_def split: if_splits)
  next
    case (Inr items)
    obtain y s2 where ens: "ensure_images_dir s1 = (y, s2)" by fastforce
    with assms got x Inr obtain ps where "y = Inr ()" and "py_iter items = Inr ps"
      and "download_loop E ps [] s2 = (Inr photos, s')"
      by (auto simp: download_photos_def split: sum.splits)
    then show ?thesis using download_loop_staged by fastforce
  qed
qed
theorem download_photos_staged_witness:
  "download_photos
     (\<lambda>h r. Some \<lparr>status_code = 200, content = req_url r, resp_text = [],
                   resp_json = Some (catalog_json
                     [\<lparr>pr_likes = 42, pr_sizes =
                        [\<lparr>sv_url = ''u1'', sv_width = 100, sv_height = 100, sv_type = ''m''\<rparr>,
                         \<lparr>sv_url = ''u2'', sv_width = 400, sv_height = 300, sv_type = ''x''\<rparr>]\<rparr>])\<rparr>)
     \<lparr>user_id = ''1'', vk_token = ''t''\<rparr> \<lparr>fs = Map.empty, console = [], sent = []\<rparr> =
   (Inr [\<lparr>tr_file_name = ''42.jpg'', tr_size = JStr ''x''\<rparr>],
    \<lparr>fs = [''images_vk'' \<mapsto> Dir, ''images_vk/42.jpg'' \<mapsto> File ''u2''], console = [],
     sent = [get_photos_request \<lparr>user_id = ''1'', vk_token = ''t''\<rparr> 0 5, get_url ''u2'']\<rparr>) \<and>
   is_file \<lparr>fs = [''images_vk'' \<mapsto> Dir, ''images_vk/42.jpg'' \<mapsto> File ''u2''], console = [],
     sent = [get_photos_request \<lparr>user_id = ''1'', vk_token = ''t''\<rparr> 0 5, get_url ''u2'']\<rparr>
     (staging_path ''42.jpg'')"
  (is "?run = (Inr ?res, ?s') \<and> _")
proof -
  have run: "?run = (Inr ?res, ?s')"
    by (simp add: download_eval_simps catalog_json_def photo_json_def variant_json_def)
  from download_photos_staged [OF run] run show ?thesis by simp
qed
section \<open>Lemmas: what the download leaves in the staging area\<close>

lemma serves_content_images: "serves_content E img \<Longrightarrow> serves_images E"
  by (auto simp: serves_content_def serves_images_def)

lemma download_photo_content:
  assumes ready: "staging_ready s" and serve: "serves_content E img"
  shows "\<exists>s'. download_photo E (photo_json p) s = (Inr (spec_transfer p), s') \<and> staging_ready s' \<and>
              fs s' = (case pr_sizes p of
                         [] \<Rightarrow> fs s
                       | v # vs \<Rightarrow> (fs s)(staging_path (spec_file_name (pr_likes p)) \<mapsto>
                                     File (img (sv_url (argmax_first variant_area v vs)))))"
proof (cases "pr_sizes p")
  case Nil
  with ready show ?thesis
    by (simp add: download_photo_def photo_json_fields spec_transfer_def py_print_def staging_ready_def)
next
  case (Cons v vs)
  let ?f = "spec_file_name (pr_likes p)"
  let ?b = "argmax_first variant_area v vs"
  obtain r where img: "E (sent s) (get_url (sv_url ?b)) = Some r" "content r = img (sv_url ?b)"
    using serve by (auto simp: serves_content_def)
  have ow: "open_write (staging_path ?f) s = (Inr (), s\<lparr>fs := (fs s)(staging_path ?f \<mapsto> File [])\<rparr>)"
    using ready slash_not_in_spec_file_name by (rule open_write_staged)
  from Cons ow img ready show ?thesis
    by (simp add: download_photo_def photo_json_fields select_best_sizes variant_json_fields
                  http_def with_open_write_def file_write_def spec_transfer_def staging_ready_file
                  Let_def spec_file_name_def)
qed

lemma download_loop_content:
  assumes "staging_ready s" and "serves_content E img"
  shows "\<exists>s'. download_loop E (map photo_json ps) acc s = (Inr (acc @ spec_transfers ps), s') \<and>
              (\<forall>l. fs s' (staging_path (spec_file_name l)) =
                     (case last_image img ps l of
                        None \<Rightarrow> fs s (staging_path (spec_file_name l))
                      | Some b \<Rightarrow> Some (File b)))"
  using assms(1)
proof (induction ps arbitrary: acc s)
  case Nil
  then show ?case by simp
next
  case (Cons p ps)
  obtain s1 where step: "download_photo E (photo_json p) s = (Inr (spec_transfer p), s1)"
    and ready1: "staging_ready s1"
    and fs1: "fs s1 = (case pr_sizes p of
                         [] \<Rightarrow> fs s
                       | v # vs \<Rightarrow> (fs s)(staging_path (spec_file_name (pr_likes p)) \<mapsto>
                                     File (img (sv_url (argmax_first variant_area v vs)))))"
    using download_photo_content [OF Cons.prems assms(2)] by blast
  let ?acc = "case spec_transfer p of None \<Rightarrow> acc | Some t \<Rightarrow> acc @ [t]"
  obtain s2 where loop: "download_loop E (map photo_json ps) ?acc s1 = (Inr (?acc @ spec_transfers ps), s2)"
    and fs2: "\<forall>l. fs s2 (staging_path (spec_file_name l)) =
                   (case last_image img ps l of
                      None \<Rightarrow> fs s1 (staging_path (spec_file_name l))
                    | Some b \<Rightarrow> Some (File b))"
    using Cons.IH [OF ready1] by blast
  from step loop have run: "download_loop E (map photo_json (p # ps)) acc s =
                              (Inr (acc @ spec_transfers (p # ps)), s2)"
    by (auto split: option.splits)
  have "fs s2 (staging_path (spec_file_name l)) =
          (case last_image img (p # ps) l of
             None \<Rightarrow> fs s (staging_path (spec_file_name l))
           | Some b \<Rightarrow> Some (File b))" for l
    using fs2 fs1 by (auto simp: staging_spec_eq split: option.splits list.splits)
  with run show ?case by blast
qed

lemma download_photos_run:
  assumes "E (sent s) (get_photos_request self 0 5) = Some r"
    and "resp_json r = Some (catalog_json ps)"
    and "serves_images E" and "staging_free s"
  shows "\<exists>s'. download_photos E self s = (Inr (spec_transfers ps), s') \<and>
              (\<forall>t \<in> set (spec_transfers ps). is_file s' (staging_path (tr_file_name t)))"
proof -
  let ?s1 = "s\<lparr>sent := sent s @ [get_photos_request self 0 5]\<rparr>"
  have got: "get_photos E self 0 5 s = (Inr (catalog_json ps), ?s1)"
    using assms(1,2) by (simp add: get_photos_def http_def resp_json_call_def)
  have "staging_free ?s1" using assms(4) by (simp add: staging_free_def)
  then obtain s2 where ens: "ensure_images_dir ?s1 = (Inr (), s2)" and "staging_ready s2"
    using ensure_images_dir_ready by blast
  then obtain s3 where loop: "download_loop E (map photo_json ps) [] s2 = (Inr (spec_transfers ps), s3)"
    using download_loop_spec [OF _ assms(3), of s2 ps "[]"] by auto
  then have "\<forall>t \<in> set (spec_transfers ps). is_file s3 (staging_path (tr_file_name t))"
    by (rule download_loop_staged) simp
  with got ens loop show ?thesis
    by (simp add: download_photos_def catalog_items_json)
qed

section \<open>Lemmas: answers to requests with a body are not looked at\<close>

lemma get_photos_agree:
  "agree_except_bodies E' E \<Longrightarrow> get_photos E' self off cnt = get_photos E self off cnt"
  by (simp add: get_photos_def agree_simps get_photos_request_def)

lemma download_photo_agree:
  "agree_except_bodies E' E \<Longrightarrow> download_photo E' p = download_photo E p"
  by (simp add: download_photo_def agree_simps get_url_def cong: if_cong)

lemma download_loop_agree:
  "agree_except_bodies E' E \<Longrightarrow> download_loop E' ps acc = download_loop E ps acc"
  by (induction ps arbitrary: acc) (simp_all add: download_photo_agree)

lemma download_photos_agree:
  "agree_except_bodies E' E \<Longrightarrow> download_photos E' self = download_photos E self"
  by (simp add: download_photos_def get_photos_agree download_loop_agree cong: sum.case_cong if_cong)

section \<open>Lemmas: the download touches only the staging area\<close>

lemma keeps_fs_at_download_photo [intro]:
  "(\<And>f. p \<noteq> staging_path f) \<Longrightarrow> keeps (\<lambda>t. fs t p = c) (download_photo E ph)"
  unfolding download_photo_def Let_def by (intro keeps_pbind keeps_if allI; blast)

lemma keeps_fs_at_download_loop [intro]:
  "(\<And>f. p \<noteq> staging_path f) \<Longrightarrow> keeps (\<lambda>t. fs t p = c) (download_loop E ps acc)"
  by (induction ps arbitrary: acc) auto

lemma keeps_fs_at_download_photos:
  assumes "p \<noteq> images_dir" and "\<And>f. p \<noteq> staging_path f"
  shows "keeps (\<lambda>t. fs t p = c) (download_photos E self)"
proof -
  have "keeps (\<lambda>t. fs t p = c) ensure_images_dir"
    using assms(1) unfolding ensure_images_dir_def keeps_def
    by (auto simp: os_makedirs_def split: sum.splits)
  with assms(2) show ?thesis
    unfolding download_photos_def get_photos_def
    by (intro keeps_pbind allI; auto split: sum.splits)
qed

section \<open>Properties: the staging area\<close>

text \<open>Claim C8.  The file is opened before the image is fetched (lines 45--46): when the
  image request raises, \<open>download_photo\<close> raises with the staging file
  \<open>images_vk/<likes>.jpg\<close> created or truncated to empty, whatever it held before.\<close>

theorem download_photo_failure_leaves_empty_file:
  assumes "staging_ready s" and "pr_sizes p = v # vs"
    and "E (sent s) (get_url (sv_url (argmax_first variant_area v vs))) = None"
  shows "download_photo E (photo_json p) s =
           (Inl RequestException,
            s\<lparr>fs := (fs s)(staging_path (spec_file_name (pr_likes p)) \<mapsto> File []),
              sent := sent s @ [get_url (sv_url (argmax_first variant_area v vs))]\<rparr>)"
proof -
  let ?f = "spec_file_name (pr_likes p)"
  have ow: "open_write (staging_path ?f) s = (Inr (), s\<lparr>fs := (fs s)(staging_path ?f \<mapsto> File [])\<rparr>)"
    using assms(1) slash_not_in_spec_file_name by (rule open_write_staged)
  from assms(2,3) ow show ?thesis
    by (simp add: download_photo_def photo_json_fields select_best_sizes variant_json_fields
                  http_def with_open_write_def Let_def spec_file_name_def)
qed

text \<open>Claim C7.  What the staging area holds after the download: the file named for a likes
  count holds the image of the last photo in the catalog with that count and with variants,
  and a name no such photo has is left as it was.  So of two photos with equal likes counts
  only the later image survives, although the returned list has a record for each.\<close>

theorem download_photos_staged_content:
  assumes "E (sent s) (get_photos_request self 0 5) = Some r"
    and "resp_json r = Some (catalog_json ps)"
    and "serves_content E img" and "staging_free s"
  shows "fs (snd (download_photos E self s)) (staging_path (spec_file_name l)) =
           (case last_image img ps l of
              None \<Rightarrow> fs s (staging_path (spec_file_name l))
            | Some b \<Rightarrow> Some (File b))"
proof -
  let ?s1 = "s\<lparr>sent := sent s @ [get_photos_request self 0 5]\<rparr>"
  have got: "get_photos E self 0 5 s = (Inr (catalog_json ps), ?s1)"
    using assms(1,2) by (simp add: get_photos_def http_def resp_json_call_def)
  have "staging_free ?s1" using assms(4) by (simp add: staging_free_def)
  then obtain s2 where ens: "ensure_images_dir ?s1 = (Inr (), s2)" and "staging_ready s2"
    using ensure_images_dir_ready by blast
  have keep: "fs s2 (staging_path f) = fs s (staging_path f)" for f
    using ens staging_path_ne_dir [of f]
    by (auto simp: ensure_images_dir_def os_makedirs_def split: if_splits sum.splits)
  obtain s3 where "download_loop E (map photo_json ps) [] s2 = (Inr (spec_transfers ps), s3)"
    and "\<forall>l. fs s3 (staging_path (spec_file_name l)) =
              (case last_image img ps l of
                 None \<Rightarrow> fs s2 (staging_path (spec_file_name l))
               | Some b \<Rightarrow> Some (File b))"
    using download_loop_content [OF \<open>staging_ready s2\<close> assms(3), of ps "[]"] by auto
  with got ens keep show ?thesis
    by (simp add: download_photos_def catalog_items_json split: option.splits)
qed


theorem download_photo_failure_leaves_empty_file_witness:
  "download_photo (\<lambda>h r. None)
     (photo_json \<lparr>pr_likes = 42, pr_sizes =
        [\<lparr>sv_url = ''u1'', sv_width = 100, sv_height = 100, sv_type = ''m''\<rparr>,
         \<lparr>sv_url = ''u2'', sv_width = 400, sv_height = 300, sv_type = ''x''\<rparr>]\<rparr>)
     \<lparr>fs = [''images_vk'' \<mapsto> Dir, ''images_vk/42.jpg'' \<mapsto> File ''old''], console = [], sent = []\<rparr> =
   (Inl RequestException,
    \<lparr>fs = [''images_vk'' \<mapsto> Dir, ''images_vk/42.jpg'' \<mapsto> File []], console = [],
     sent = [get_url ''u2'']\<rparr>)"
proof -
  let ?s = "\<lparr>fs = [''images_vk'' \<mapsto> Dir, ''images_vk/42.jpg'' \<mapsto> File ''old''], console = [], sent = []\<rparr>"
  let ?v = "\<lparr>sv_url = ''u1'', sv_width = 100, sv_height = 100, sv_type = ''m''\<rparr>"
  let ?vs = "[\<lparr>sv_url = ''u2'', sv_width = 400, sv_height = 300, sv_type = ''x''\<rparr>]"
  have h1: "staging_ready ?s"
    by (simp add: staging_ready_def images_dir_def staging_path_def path_join_def)
  have h2: "pr_sizes \<lparr>pr_likes = 42, pr_sizes = ?v # ?vs\<rparr> = ?v # ?vs" by simp
  have h3: "(\<lambda>h r. None) (sent ?s) (get_url (sv_url (argmax_first variant_area ?v ?vs))) = None" by simp
  have arg: "argmax_first variant_area ?v ?vs = hd ?vs" by (simp add: variant_area_def)
  have name: "staging_path (spec_file_name 42) = ''images_vk/42.jpg''"
    by (simp add: staging_path_def path_join_def images_dir_def spec_file_name_def dec_int_def
                  dec_nat.simps digit_chars_def)
  from download_photo_failure_leaves_empty_file [OF h1 h2 h3] arg name show ?thesis
    by (simp add: fun_upd_twist)
qed

theorem download_photos_staged_content_witness:
  "fs (snd (download_photos
          (\<lambda>h r. Some \<lparr>status_code = 200, content = req_url r, resp_text = [],
                        resp_json = Some (catalog_json
                          [\<lparr>pr_likes = 7, pr_sizes =
                             [\<lparr>sv_url = ''u1'', sv_width = 100, sv_height = 100, sv_type = ''m''\<rparr>]\<rparr>,
                           \<lparr>pr_likes = 7, pr_sizes =
                             [\<lparr>sv_url = ''u2'', sv_width = 200, sv_height = 200, sv_type = ''x''\<rparr>]\<rparr>])\<rparr>)
          \<lparr>user_id = ''1'', vk_token = ''t''\<rparr> \<lparr>fs = Map.empty, console = [], sent = []\<rparr>))
     (staging_path (spec_file_name 7)) = Some (File ''u2'')"
  (is "fs (snd (download_photos ?E ?self ?s)) _ = _")
proof -
  let ?ps = "[\<lparr>pr_likes = 7, pr_sizes =
                 [\<lparr>sv_url = ''u1'', sv_width = 100, sv_height = 100, sv_type = ''m''\<rparr>]\<rparr>,
              \<lparr>pr_likes = 7, pr_sizes =
                 [\<lparr>sv_url = ''u2'', sv_width = 200, sv_height = 200, sv_type = ''x''\<rparr>]\<rparr>]"
  let ?r = "\<lparr>status_code = 200, content = vk_photos_url, resp_text = [],
             resp_json = Some (catalog_json ?ps)\<rparr>"
  have h1: "?E (sent ?s) (get_photos_request ?self 0 5) = Some ?r"
    by (simp add: get_photos_request_def)
  have h2: "resp_json ?r = Some (catalog_json ?ps)" by simp
  have h3: "serves_content ?E (\<lambda>u. u)" by (simp add: serves_content_def get_url_def)
  have h4: "staging_free ?s" by (simp add: staging_free_def)
  from download_photos_staged_content [OF h1 h2 h3 h4, of 7] show ?thesis by simp
qed

end
