(* ===== verification/Ya_Uploader.thy ===== *)
theory Ya_Uploader
  imports Vk_Downloader
begin

text \<open>
  The destination side, class \<open>YaUploader\<close> of \<open>src/program.py\<close> (lines 51--77).
  The object holds the OAuth token and the folder name.  \<open>create_folder\<close> sends one
  \<open>PUT\<close> to the resources endpoint and only reports the status: 201 created, 409
  already there, anything else an error with the response text; it never raises on a
  status.  \<open>upload_photos\<close> walks the transfer records in order (\<open>tqdm\<close> only draws a
  progress bar on the terminal and is not modelled); for each it opens the staged file
  \<open>images_vk/<file_name>\<close>, asks for an upload link for \<open><folder>/<file_name>\<close> with
  \<open>overwrite=true\<close>, reads \<open>href\<close> from the JSON answer with \<open>.get\<close> and \<open>PUT\<close>s
  the file's bytes to it.  The status of that last request is never looked at.
\<close>

record ya_uploader =
  ya_token :: string
  folder_name :: string

definition disk_resources_url :: string where
  "disk_resources_url = ''https://cloud-api.yandex.net/v1/disk/resources''"

definition disk_upload_url :: string where
  "disk_upload_url = ''https://cloud-api.yandex.net/v1/disk/resources/upload''"

definition auth_headers :: "ya_uploader \<Rightarrow> (string \<times> string) list" where
  "auth_headers self = [(''Authorization'', ''OAuth '' @ ya_token self)]"

definition create_folder_request :: "ya_uploader \<Rightarrow> request" where
  "create_folder_request self =
     \<lparr>req_method = PUT, req_url = disk_resources_url, req_headers = auth_headers self,
      req_params = [(''path'', folder_name self)], req_data = None\<rparr>"

text \<open>Lines 56--66.\<close>

definition create_folder :: "env \<Rightarrow> ya_uploader \<Rightarrow> unit io" where
  "create_folder E self =
     pbind (http E (create_folder_request self)) (\<lambda>response.
       if status_code response = 201 then py_print (MsgFolderCreated (folder_name self))
       else if status_code response = 409 then py_print (MsgFolderExists (folder_name self))
       else py_print (MsgFolderError (resp_text response)))"

definition remote_path :: "ya_uploader \<Rightarrow> string \<Rightarrow> string" where
  "remote_path self f = folder_name self @ CHR ''/'' # f"

definition upload_link_request :: "ya_uploader \<Rightarrow> string \<Rightarrow> request" where
  "upload_link_request self f =
     \<lparr>req_method = GET, req_url = disk_upload_url, req_headers = auth_headers self,
      req_params = [(''path'', remote_path self f), (''overwrite'', ''true'')], req_data = None\<rparr>"

definition put_request :: "string \<Rightarrow> bytes \<Rightarrow> request" where
  "put_request u b = \<lparr>req_method = PUT, req_url = u, req_headers = [], req_params = [],
                      req_data = Some b\<rparr>"

text \<open>The body of the loop, lines 72--77.  \<open>requests.put(href, data=file)\<close> turns
  \<open>href\<close> into a string first, so a missing \<open>href\<close> is sent as the URL \<open>None\<close>
  (which \<open>requests\<close> rejects).\<close>

definition upload_photo :: "env \<Rightarrow> ya_uploader \<Rightarrow> transfer \<Rightarrow> unit io" where
  "upload_photo E self photo =
     pbind (open_read (staging_path (tr_file_name photo))) (\<lambda>file.
     pbind (http E (upload_link_request self (tr_file_name photo))) (\<lambda>response.
     pbind (plift (resp_json_call response)) (\<lambda>body.
     pbind (plift (py_dict_get body ''href'')) (\<lambda>href.
     pseq (http E (put_request (py_str href) file)) (preturn ())))))"

text \<open>Lines 68--77.\<close>

definition upload_photos :: "env \<Rightarrow> ya_uploader \<Rightarrow> transfer list \<Rightarrow> unit io" where
  "upload_photos E self photos = pforeach (upload_photo E self) photos"

definition upload_trace :: "ya_uploader \<Rightarrow> transfer list \<Rightarrow> request list \<Rightarrow> request list" where
  "upload_trace self photos puts =
     concat (map (\<lambda>(p, q). [upload_link_request self (tr_file_name p), q]) (zip photos puts))"

definition puts_carry_files :: "sys \<Rightarrow> transfer list \<Rightarrow> request list \<Rightarrow> bool" where
  "puts_carry_files s photos puts \<longleftrightarrow>
     length puts = length photos \<and>
     (\<forall>(p, q) \<in> set (zip photos puts). req_method q = PUT \<and>
        (\<exists>b. fs s (staging_path (tr_file_name p)) = Some (File b) \<and> req_data q = Some b))"

text \<open>Environments that answer every upload-link request with a JSON object holding a
  string \<open>href\<close>, and that answer every \<open>PUT\<close> of file bytes.\<close>

definition gives_upload_links :: "env \<Rightarrow> ya_uploader \<Rightarrow> bool" where
  "gives_upload_links E self \<longleftrightarrow>
     (\<forall>h f. \<exists>r kvs u. E h (upload_link_request self f) = Some r \<and> resp_json r = Some (JDict kvs) \<and>
                     map_of kvs ''href'' = Some (JStr u))"

definition accepts_uploads :: "env \<Rightarrow> bool" where
  "accepts_uploads E \<longleftrightarrow> (\<forall>h u b. E h (put_request u b) \<noteq> None)"

section \<open>Lemmas\<close>

lemma upload_photo_effect:
  assumes "upload_photo E self p s = (Inr (), s')"
  shows "\<exists>q b. sent s' = sent s @ [upload_link_request self (tr_file_name p), q] \<and>
               req_method q = PUT \<and> req_data q = Some b \<and>
               fs s (staging_path (tr_file_name p)) = Some (File b) \<and>
               fs s' = fs s \<and> console s' = console s"
  using assms
  by (auto simp: upload_photo_def open_read_def http_def put_request_def
           split: option.splits fentry.splits sum.splits)

lemma upload_photos_effect:
  "pforeach (upload_photo E self) photos s = (Inr (), s') \<Longrightarrow>
   \<exists>puts. sent s' = sent s @ upload_trace self photos puts \<and> puts_carry_files s photos puts \<and>
          fs s' = fs s \<and> console s' = console s"
proof (induction photos arbitrary: s)
  case Nil
  then show ?case by (simp add: upload_trace_def puts_carry_files_def)
next
  case (Cons p ps)
  obtain x s1 where step: "upload_photo E self p s = (x, s1)" by fastforce
  with Cons.prems have x: "x = Inr ()" by (cases x) auto
  with step obtain q b where q: "sent s1 = sent s @ [upload_link_request self (tr_file_name p), q]"
    "req_method q = PUT" "req_data q = Some b" "fs s (staging_path (tr_file_name p)) = Some (File b)"
    "fs s1 = fs s" "console s1 = console s"
    using upload_photo_effect by blast
  from Cons.prems step x have "pforeach (upload_photo E self) ps s1 = (Inr (), s')" by simp
  then obtain puts where "sent s' = sent s1 @ upload_trace self ps puts"
    "puts_carry_files s1 ps puts" "fs s' = fs s1" "console s' = console s1"
    using Cons.IH by blast
  with q show ?case
    by (auto simp: upload_trace_def puts_carry_files_def intro!: exI [of _ "q # puts"])
qed

lemma keeps_fs_wf_create_folder [intro!]: "keeps fs_wf (create_folder E self)"
  unfolding create_folder_def by blast

lemma keeps_fs_wf_upload_photos [intro!]: "keeps fs_wf (upload_photos E self photos)"
  unfolding upload_photos_def upload_photo_def by blast

lemma keeps_fs_wf_upload_photo [intro!]: "keeps fs_wf (upload_photo E self p)"
  unfolding upload_photo_def by blast

lemma fs_frame_create_folder [intro!]: "fs_frame (create_folder E self)"
  unfolding create_folder_def by blast

lemma fs_frame_upload_photo [intro!]: "fs_frame (upload_photo E self p)"
  unfolding upload_photo_def by blast

text \<open>Once the staged file opens, an upload can only fail on the remote side: the
  request raising, a body that is not JSON, or a JSON body that is not an object.\<close>

lemma upload_photo_fail_remote:
  assumes "upload_photo E self p s = (Inl e, s')"
    and "fs s (staging_path (tr_file_name p)) = Some (File b)"
  shows "e \<in> {RequestException, JSONDecodeError, AttributeError}"
proof -
  obtain x s1 where link: "http E (upload_link_request self (tr_file_name p)) s = (x, s1)"
    by fastforce
  from assms link show ?thesis
    by (cases x) (auto simp: upload_photo_def open_read_def resp_json_call_def http_def
                        split: sum.splits option.splits elim: py_dict_get.elims)
qed

lemma create_folder_agree:
  "agree_except_bodies E' E \<Longrightarrow> create_folder E' self = create_folder E self"
  by (simp add: create_folder_def agree_simps create_folder_request_def)

lemma upload_photo_agree:
  "agree_except_bodies E' E \<Longrightarrow> upload_photo E' self = upload_photo E self"
  by (rule ext) (simp add: upload_photo_def agree_simps upload_link_request_def)

lemma upload_photos_agree:
  "agree_except_bodies E' E \<Longrightarrow> upload_photos E' self ps = upload_photos E self ps"
  by (simp add: upload_photos_def upload_photo_agree)

lemma upload_photo_completes:
  assumes "is_file s (staging_path (tr_file_name p))"
    and "gives_upload_links E self" and "accepts_uploads E"
  shows "\<exists>s'. upload_photo E self p s = (Inr (), s') \<and> fs s' = fs s"
proof -
  from assms(1) obtain b where b: "fs s (staging_path (tr_file_name p)) = Some (File b)"
    by (auto simp: is_file_def)
  let ?s1 = "s\<lparr>sent := sent s @ [upload_link_request self (tr_file_name p)]\<rparr>"
  from assms(2) obtain r kvs u where
    r: "E (sent s) (upload_link_request self (tr_file_name p)) = Some r"
    and j: "resp_json r = Some (JDict kvs)" and u: "map_of kvs ''href'' = Some (JStr u)"
    unfolding gives_upload_links_def by blast
  from assms(3) obtain q where "E (sent ?s1) (put_request u b) = Some q"
    unfolding accepts_uploads_def by blast
  with b r j u show ?thesis
    by (simp add: upload_photo_def open_read_def http_def resp_json_call_def)
qed

lemma upload_photos_completes:
  assumes "\<forall>t \<in> set ts. is_file s (staging_path (tr_file_name t))"
    and "gives_upload_links E self" and "accepts_uploads E"
  shows "\<exists>s'. upload_photos E self ts s = (Inr (), s') \<and> fs s' = fs s"
  using assms(1) unfolding upload_photos_def
proof (induction ts arbitrary: s)
  case Nil
  then show ?case by simp
next
  case (Cons t ts)
  then obtain s1 where s1: "upload_photo E self t s = (Inr (), s1)" "fs s1 = fs s"
    using upload_photo_completes [OF _ assms(2,3)] by force
  with Cons.prems have "\<forall>t \<in> set ts. is_file s1 (staging_path (tr_file_name t))"
    by (simp add: is_file_def)
  then obtain s2 where "pforeach (upload_photo E self) ts s1 = (Inr (), s2)" "fs s2 = fs s1"
    using Cons.IH by blast
  with s1 show ?case by simp
qed

lemma create_folder_completes:
  "E (sent s) (create_folder_request self) \<noteq> None \<Longrightarrow>
   \<exists>s'. create_folder E self s = (Inr (), s') \<and> fs s' = fs s"
  by (auto simp: create_folder_def http_def py_print_def)

text \<open>Claim C14.  Folder creation never stops the run on a status: whatever the answer to
  its one \<open>PUT\<close>, \<open>create_folder\<close> returns normally, changes no file, and only prints
  created (201), already exists (409) or the error text (any other status).\<close>

theorem create_folder_reports:
  assumes "E (sent s) (create_folder_request self) = Some resp"
  shows "create_folder E self s =
           (Inr (), s\<lparr>sent := sent s @ [create_folder_request self],
                      console := console s @
                        [if status_code resp = 201 then MsgFolderCreated (folder_name self)
                         else if status_code resp = 409 then MsgFolderExists (folder_name self)
                         else MsgFolderError (resp_text resp)]\<rparr>)"
  using assms by (simp add: create_folder_def http_def py_print_def)

text \<open>Claim C12.  Round trip of the file names: a completed \<open>upload_photos\<close> sends, for
  each transfer record in order, an upload-link request for \<open><folder>/<file_name>\<close>
  followed by one \<open>PUT\<close> whose body is the content of \<open>images_vk/<file_name>\<close>, and
  touches no file.\<close>

theorem upload_photos_requests:
  assumes "upload_photos E self photos s = (Inr (), s')"
  shows "\<exists>puts. sent s' = sent s @ upload_trace self photos puts \<and>
                puts_carry_files s photos puts \<and> fs s' = fs s"
  using assms upload_photos_effect unfolding upload_photos_def by blast

theorem create_folder_reports_witness:
  "create_folder (\<lambda>h r. Some \<lparr>status_code = 409, content = [], resp_text = [], resp_json = None\<rparr>)
     \<lparr>ya_token = ''y'', folder_name = ''backup''\<rparr> \<lparr>fs = Map.empty, console = [], sent = []\<rparr> =
   (Inr (), \<lparr>fs = Map.empty, console = [MsgFolderExists ''backup''],
             sent = [create_folder_request \<lparr>ya_token = ''y'', folder_name = ''backup''\<rparr>]\<rparr>)"
  (is "create_folder ?E ?self ?s = _")
proof -
  let ?resp = "\<lparr>status_code = 409, content = [], resp_text = [], resp_json = None\<rparr>"
  have "?E (sent ?s) (create_folder_request ?self) = Some ?resp" by simp
  from create_folder_reports [OF this] show ?thesis by simp
qed

theorem upload_photos_requests_witness:
  "upload_photos (\<lambda>h r. Some \<lparr>status_code = 200, content = [], resp_text = [],
                              resp_json = Some (JDict [(''href'', JStr ''https://up/1'')])\<rparr>)
     \<lparr>ya_token = ''y'', folder_name = ''backup''\<rparr> [\<lparr>tr_file_name = ''42.jpg'', tr_size = JStr ''x''\<rparr>]
     \<lparr>fs = [''images_vk'' \<mapsto> Dir, ''images_vk/42.jpg'' \<mapsto> File ''IMG''], console = [], sent = []\<rparr> =
   (Inr (), \<lparr>fs = [''images_vk'' \<mapsto> Dir, ''images_vk/42.jpg'' \<mapsto> File ''IMG''], console = [],
             sent = [upload_link_request \<lparr>ya_token = ''y'', folder_name = ''backup''\<rparr> ''42.jpg'',
                     put_request ''https://up/1'' ''IMG'']\<rparr>) \<and>
   (\<exists>puts. [upload_link_request \<lparr>ya_token = ''y'', folder_name = ''backup''\<rparr> ''42.jpg'',
             put_request ''https://up/1'' ''IMG''] =
           [] @ upload_trace \<lparr>ya_token = ''y'', folder_name = ''backup''\<rparr>
                  [\<lparr>tr_file_name = ''42.jpg'', tr_size = JStr ''x''\<rparr>] puts \<and>
           puts_carry_files \<lparr>fs = [''images_vk'' \<mapsto> Dir, ''images_vk/42.jpg'' \<mapsto> File ''IMG''],
                              console = [], sent = []\<rparr>
             [\<lparr>tr_file_name = ''42.jpg'', tr_size = JStr ''x''\<rparr>] puts)"
  (is "?run = (Inr (), ?s') \<and> _")
proof -
  have run: "?run = (Inr (), ?s')"
    by (simp add: upload_photos_def upload_photo_def open_read_def http_def resp_json_call_def
                  staging_path_def path_join_def images_dir_def)
  from upload_photos_requests [OF run] run show ?thesis by simp
qed

end
