(* ===== verification/Json_Reader.thy ===== *)
theory Json_Reader
  imports Py_Json
begin

text \<open>
  A reader for the JSON text \<open>json.dump\<close> writes, in the manner of \<open>json.load\<close>:
  whitespace between tokens, \<open>null\<close>, \<open>true\<close>, \<open>false\<close>, integers without leading
  zeros, strings with the escapes of RFC 8259 (a \<open>\u\<close> escape is read as a byte, as
  strings are byte strings here, so an escape above \<open>00ff\<close> is refused), arrays and
  objects.  Control characters inside strings are refused, as \<open>json.load\<close> does by
  default.  Nesting is bounded by fuel; \<open>json_load\<close> gives it the length of the text,
  which is always enough (\<open>jsize_le_length\<close>).
\<close>

definition ws_chars :: string where
  "ws_chars = [CHR '' '', CHR 0x0A, CHR 0x0D, CHR 0x09]"

definition skip_ws :: "string \<Rightarrow> string" where
  "skip_ws = dropWhile (\<lambda>c. c \<in> set ws_chars)"

definition is_digit :: "char \<Rightarrow> bool" where
  "is_digit c \<longleftrightarrow> c \<in> set digit_chars"

definition digit_val :: "char \<Rightarrow> nat" where
  "digit_val c = of_char c - 48"

definition parse_nat :: "string \<Rightarrow> (nat \<times> string) option" where
  "parse_nat s =
     (let ds = takeWhile is_digit s in
      if ds = [] \<or> (hd ds = CHR ''0'' \<and> 1 < length ds) then None
      else Some (foldl (\<lambda>n c. 10 * n + digit_val c) 0 ds, dropWhile is_digit s))"

definition parse_int :: "string \<Rightarrow> (int \<times> string) option" where
  "parse_int s =
     (case s of
        [] \<Rightarrow> None
      | c # r \<Rightarrow>
          if c = CHR ''-'' then map_option (\<lambda>(n, t). (- int n, t)) (parse_nat r)
          else map_option (\<lambda>(n, t). (int n, t)) (parse_nat s))"

fun pos_of :: "'a \<Rightarrow> 'a list \<Rightarrow> nat option" where
  "pos_of x [] = None"
| "pos_of x (y # ys) = (if x = y then Some 0 else map_option Suc (pos_of x ys))"

definition hex_val :: "char \<Rightarrow> nat option" where
  "hex_val c =
     (case pos_of c hex_digits of
        Some i \<Rightarrow> Some i
      | None \<Rightarrow> map_option (\<lambda>i. i + 10) (pos_of c ''ABCDEF''))"

definition unicode4 :: "string \<Rightarrow> char option" where
  "unicode4 xs =
     (case map hex_val xs of
        [Some a, Some b, Some c, Some d] \<Rightarrow>
          (let v = 4096 * a + 256 * b + 16 * c + d in if v < 256 then Some (char_of v) else None)
      | _ \<Rightarrow> None)"

definition simple_escape :: "char \<Rightarrow> char option" where
  "simple_escape e =
     (if e = CHR 0x22 then Some (CHR 0x22)
      else if e = CHR 0x5C then Some (CHR 0x5C)
      else if e = CHR ''/'' then Some (CHR ''/'')
      else if e = CHR ''b'' then Some (CHR 0x08)
      else if e = CHR ''f'' then Some (CHR 0x0C)
      else if e = CHR ''n'' then Some (CHR 0x0A)
      else if e = CHR ''r'' then Some (CHR 0x0D)
      else if e = CHR ''t'' then Some (CHR 0x09)
      else None)"

text \<open>The body of a string after the opening quote, up to and without the closing one.\<close>

function parse_str :: "string \<Rightarrow> (string \<times> string) option" where
  "parse_str [] = None"
| "parse_str (c # r) =
     (if c = CHR 0x22 then Some ([], r)
      else if c = CHR 0x5C then
        (case r of
           [] \<Rightarrow> None
         | e # r' \<Rightarrow>
             if e = CHR ''u'' then
               (case unicode4 (take 4 r') of
                  None \<Rightarrow> None
                | Some x \<Rightarrow> map_option (\<lambda>(s, t). (x # s, t)) (parse_str (drop 4 r')))
             else
               (case simple_escape e of
                  None \<Rightarrow> None
                | Some x \<Rightarrow> map_option (\<lambda>(s, t). (x # s, t)) (parse_str r')))
      else if of_char c < (32 :: nat) then None
      else map_option (\<lambda>(s, t). (c # s, t)) (parse_str r))"
  by pat_completeness auto
termination by (relation "measure length") auto

fun parse_value :: "nat \<Rightarrow> string \<Rightarrow> (json \<times> string) option"
and parse_items :: "nat \<Rightarrow> string \<Rightarrow> (json list \<times> string) option"
and parse_members :: "nat \<Rightarrow> string \<Rightarrow> ((string \<times> json) list \<times> string) option" where
  "parse_value 0 s = None"
| "parse_value (Suc n) s =
     (case skip_ws s of
        [] \<Rightarrow> None
      | c # r \<Rightarrow>
          if c = CHR ''n'' \<and> take 3 r = ''ull'' then Some (JNull, drop 3 r)
          else if c = CHR ''t'' \<and> take 3 r = ''rue'' then Some (JBool True, drop 3 r)
          else if c = CHR ''f'' \<and> take 4 r = ''alse'' then Some (JBool False, drop 4 r)
          else if c = CHR 0x22 then map_option (\<lambda>(x, t). (JStr x, t)) (parse_str r)
          else if c = CHR ''['' then
            (case skip_ws r of
               [] \<Rightarrow> None
             | d # t \<Rightarrow>
                 if d = CHR '']'' then Some (JList [], t)
                 else map_option (\<lambda>(xs, u). (JList xs, u)) (parse_items n r))
          else if c = CHR ''{'' then
            (case skip_ws r of
               [] \<Rightarrow> None
             | d # t \<Rightarrow>
                 if d = CHR ''}'' then Some (JDict [], t)
                 else map_option (\<lambda>(ps, u). (JDict ps, u)) (parse_members n r))
          else map_option (\<lambda>(i, t). (JInt i, t)) (parse_int (c # r)))"
| "parse_items 0 s = None"
| "parse_items (Suc n) s =
     (case parse_value n s of
        None \<Rightarrow> None
      | Some (v, r) \<Rightarrow>
          (case skip_ws r of
             [] \<Rightarrow> None
           | d # t \<Rightarrow>
               if d = CHR '','' then map_option (\<lambda>(vs, u). (v # vs, u)) (parse_items n t)
               else if d = CHR '']'' then Some ([v], t)
               else None))"
| "parse_members 0 s = None"
| "parse_members (Suc n) s =
     (case skip_ws s of
        [] \<Rightarrow> None
      | c # r \<Rightarrow>
          if c \<noteq> CHR 0x22 then None
          else
            (case parse_str r of
               None \<Rightarrow> None
             | Some (k, r1) \<Rightarrow>
                 (case skip_ws r1 of
                    [] \<Rightarrow> None
                  | d # r2 \<Rightarrow>
                      if d \<noteq> CHR '':'' then None
                      else
                        (case parse_value n r2 of
                           None \<Rightarrow> None
                         | Some (v, r3) \<Rightarrow>
                             (case skip_ws r3 of
                                [] \<Rightarrow> None
                              | e # r4 \<Rightarrow>
                                  if e = CHR '','' then
                                    map_option (\<lambda>(ms, u). ((k, v) # ms, u)) (parse_members n r4)
                                  else if e = CHR ''}'' then Some ([(k, v)], r4)
                                  else None)))))"

definition json_load :: "string \<Rightarrow> json option" where
  "json_load s =
     (case parse_value (Suc (length s)) s of
        None \<Rightarrow> None
      | Some (v, r) \<Rightarrow> if skip_ws r = [] then Some v else None)"


text \<open>A bound on the nesting the reader needs for a value: one step per value, two per
  element of an array or object.\<close>

fun jsize :: "json \<Rightarrow> nat" where
  "jsize (JList xs) = Suc (sum_list (map jsize xs) + 2 * length xs)"
| "jsize (JDict ps) = Suc (sum_list (map (\<lambda>(k, v). jsize v) ps) + 2 * length ps)"
| "jsize _ = 1"

definition no_digit_first :: "string \<Rightarrow> bool" where
  "no_digit_first r \<longleftrightarrow> (case r of [] \<Rightarrow> True | c # _ \<Rightarrow> \<not> is_digit c)"

section \<open>Lemmas: whitespace\<close>

lemma dropWhile_replicate: "P c \<Longrightarrow> dropWhile P (replicate n c @ s) = dropWhile P s"
  by (induction n) simp_all

lemma skip_ws_newline_indent [simp]: "skip_ws (newline_indent k @ s) = skip_ws s"
  by (simp add: skip_ws_def newline_indent_def ws_chars_def dropWhile_replicate)

lemma skip_ws_space [simp]: "skip_ws (CHR '' '' # s) = skip_ws s"
  by (simp add: skip_ws_def ws_chars_def)

lemma skip_ws_Cons: "c \<notin> set ws_chars \<Longrightarrow> skip_ws (c # s) = c # s"
  by (simp add: skip_ws_def)

lemma skip_ws_idem [simp]: "skip_ws (skip_ws s) = skip_ws s"
  by (induction s) (simp_all add: skip_ws_def)

lemma parse_value_skip: "skip_ws s = skip_ws s' \<Longrightarrow> parse_value n s = parse_value n s'"
  by (cases n) simp_all

lemma parse_value_newline_indent [simp]:
  "parse_value n (newline_indent k @ s) = parse_value n s"
  by (rule parse_value_skip) simp

lemma parse_value_space [simp]: "parse_value n (CHR '' '' # s) = parse_value n s"
  by (rule parse_value_skip) simp

section \<open>Lemmas: integers\<close>

lemma digit_chars_nth: "i < 10 \<Longrightarrow> is_digit (digit_chars ! i) \<and> digit_val (digit_chars ! i) = i"
  by (auto simp: is_digit_def digit_val_def digit_chars_def less_Suc_eq numeral_eq_Suc)

lemma dec_nat_is_digit: "c \<in> set (dec_nat n) \<Longrightarrow> is_digit c"
  using dec_nat_digits by (simp add: is_digit_def)

lemma read_dec_nat: "foldl (\<lambda>n c. 10 * n + digit_val c) 0 (dec_nat n) = n"
proof (induction n rule: dec_nat.induct)
  case (1 n)
  show ?case
  proof (cases "n < 10")
    case True
    then show ?thesis by (simp add: dec_nat.simps [of n] digit_chars_nth)
  next
    case False
    with "1.IH" show ?thesis by (simp add: dec_nat.simps [of n] digit_chars_nth)
  qed
qed

lemma hd_dec_nat_zero: "hd (dec_nat n) = CHR ''0'' \<Longrightarrow> n = 0"
proof (induction n rule: dec_nat.induct)
  case (1 n)
  show ?case
  proof (cases "n < 10")
    case True
    with "1.prems" have "digit_chars ! n = digit_chars ! 0" by (simp add: dec_nat.simps [of n] digit_chars_def)
    with True show ?thesis using digit_chars_inj [of n 0] by simp
  next
    case False
    with "1.prems" have "hd (dec_nat (n div 10)) = CHR ''0''" by (simp add: dec_nat.simps [of n])
    with "1.IH" False have "n div 10 = 0" by simp
    with False show ?thesis by simp
  qed
qed

lemma length_dec_nat_zero: "length (dec_nat 0) = 1"
  by (simp add: dec_nat.simps [of 0])

lemma parse_nat_dec_nat:
  assumes "no_digit_first r"
  shows "parse_nat (dec_nat n @ r) = Some (n, r)"
proof -
  have all: "\<forall>c \<in> set (dec_nat n). is_digit c" using dec_nat_is_digit by blast
  have tw: "takeWhile is_digit (dec_nat n @ r) = dec_nat n"
    using all assms by (cases r) (simp_all add: takeWhile_append2 no_digit_first_def)
  have dw: "dropWhile is_digit (dec_nat n @ r) = r"
    using all assms by (cases r) (simp_all add: dropWhile_append2 no_digit_first_def)
  have "\<not> (hd (dec_nat n) = CHR ''0'' \<and> 1 < length (dec_nat n))"
    using hd_dec_nat_zero length_dec_nat_zero by fastforce
  with tw dw show ?thesis by (simp add: parse_nat_def read_dec_nat Let_def)
qed

lemma parse_int_dec_int:
  assumes "no_digit_first r"
  shows "parse_int (dec_int i @ r) = Some (i, r)"
proof (cases "i < 0")
  case True
  then show ?thesis using parse_nat_dec_nat [OF assms] by (simp add: dec_int_def parse_int_def)
next
  case False
  obtain c t where ct: "dec_nat (nat i) = c # t" by (cases "dec_nat (nat i)") simp_all
  have "c \<noteq> CHR ''-''" using minus_not_digit ct by blast
  with False ct show ?thesis using parse_nat_dec_nat [OF assms, of "nat i"]
    by (simp add: dec_int_def parse_int_def)
qed


section \<open>Lemmas: strings\<close>

lemma pos_of_nth: "distinct xs \<Longrightarrow> i < length xs \<Longrightarrow> pos_of (xs ! i) xs = Some i"
proof (induction xs arbitrary: i)
  case Nil
  then show ?case by simp
next
  case (Cons x xs)
  then show ?case by (cases i) auto
qed

lemma hex_val_nth: "i < 16 \<Longrightarrow> hex_val (hex_digits ! i) = Some i"
  using pos_of_nth [of hex_digits i] by (simp add: hex_val_def hex_digits_def)

lemma hex_val_zero: "hex_val (CHR ''0'') = Some 0"
  using hex_val_nth [of 0] by (simp add: hex_digits_def)

lemma length_hex2 [simp]: "length (hex2 c) = 2"
  by (simp add: hex2_def)

lemma unicode4_hex2: "unicode4 ([CHR ''0'', CHR ''0''] @ hex2 c) = Some c"
proof -
  have "of_char c < (256 :: nat)" using nat_of_char_less_256 [of c] by simp
  then have "of_char c div 16 < (16 :: nat)" "of_char c mod 16 < (16 :: nat)"
    by (simp_all add: less_mult_imp_div_less [where n = 16, simplified])
  then have "hex_val (hex_digits ! (of_char c div 16)) = Some (of_char c div 16)"
    and "hex_val (hex_digits ! (of_char c mod 16)) = Some (of_char c mod 16)"
    by (simp_all add: hex_val_nth)
  moreover have "16 * (of_char c div 16) + of_char c mod 16 = (of_char c :: nat)" by simp
  ultimately show ?thesis
    using \<open>of_char c < 256\<close> by (simp add: unicode4_def hex2_def hex_val_zero)
qed

lemma parse_str_json_char:
  "parse_str (json_char c @ s) = map_option (\<lambda>(x, t). (c # x, t)) (parse_str s)"
  unfolding json_char_def
  by (simp add: simple_escape_def unicode4_hex2 [simplified])

lemma parse_str_json_str:
  "parse_str (concat (map json_char s) @ CHR 0x22 # r) = Some (s, r)"
  by (induction s) (simp_all add: parse_str_json_char)


section \<open>Lemmas: the printer's output read back\<close>

lemma no_digit_first_newline_indent [simp]: "no_digit_first (newline_indent k @ s)"
  by (simp add: no_digit_first_def newline_indent_def is_digit_def digit_chars_def)

lemma no_digit_first_comma [simp]: "no_digit_first (CHR '','' # s)"
  by (simp add: no_digit_first_def is_digit_def digit_chars_def)

lemma skip_ws_close [simp]:
  "skip_ws (CHR '']'' # s) = CHR '']'' # s" "skip_ws (CHR ''}'' # s) = CHR ''}'' # s"
  "skip_ws (CHR '','' # s) = CHR '','' # s" "skip_ws (CHR '':'' # s) = CHR '':'' # s"
  "skip_ws (CHR 0x22 # s) = CHR 0x22 # s"
  by (simp_all add: skip_ws_Cons ws_chars_def)

lemma json_enc_first:
  "\<exists>c t. json_enc lvl v = c # t \<and> c \<notin> set ws_chars \<and> c \<noteq> CHR '']'' \<and> c \<noteq> CHR ''}''"
proof (cases v)
  case (JInt i)
  obtain c t where ct: "dec_nat (nat \<bar>i\<bar>) = c # t" by (cases "dec_nat (nat \<bar>i\<bar>)") simp_all
  then have "c \<in> set digit_chars" using dec_nat_digits [of c "nat \<bar>i\<bar>"] by simp
  then have "c \<notin> set ws_chars \<and> c \<noteq> CHR '']'' \<and> c \<noteq> CHR ''}''"
    by (auto simp: digit_chars_def ws_chars_def)
  with JInt ct show ?thesis by (auto simp: dec_int_def ws_chars_def)
qed (auto simp: ws_chars_def json_str_def)

lemma parse_value_enc_skip:
  assumes "json_enc lvl v = c # t" and "c \<notin> set ws_chars"
  shows "skip_ws (json_enc lvl v @ r) = json_enc lvl v @ r"
  using assms by (simp add: skip_ws_Cons)

lemma parse_items_enc:
  assumes IH: "\<forall>x \<in> set xs. \<forall>n r. jsize x < n \<longrightarrow> no_digit_first r \<longrightarrow>
                 parse_value n (json_enc (Suc lvl) x @ r) = Some (x, r)"
    and "xs \<noteq> []" and "sum_list (map jsize xs) + 2 * length xs < n"
  shows "parse_items n (newline_indent (Suc lvl) @
           join (CHR '','' # newline_indent (Suc lvl)) (map (json_enc (Suc lvl)) xs) @
           newline_indent lvl @ CHR '']'' # r) = Some (xs, r)"
  using assms
proof (induction xs arbitrary: n)
  case Nil
  then show ?case by simp
next
  case (Cons x xs)
  then obtain n' where n: "n = Suc n'" by (cases n) auto
  let ?sep = "CHR '','' # newline_indent (Suc lvl)"
  have px: "parse_value n' (json_enc (Suc lvl) x @ r') = Some (x, r')" if "no_digit_first r'" for r'
    using Cons.prems(1,3) n that by simp
  show ?case
  proof (cases xs)
    case Nil
    from px [of "newline_indent lvl @ CHR '']'' # r"] have
      "parse_value n' (newline_indent (Suc lvl) @ json_enc (Suc lvl) x @ newline_indent lvl @ CHR '']'' # r)
         = Some (x, newline_indent lvl @ CHR '']'' # r)" by simp
    with Nil n show ?thesis by simp
  next
    case (Cons y ys)
    let ?rest = "newline_indent (Suc lvl) @ join ?sep (map (json_enc (Suc lvl)) xs) @
                 newline_indent lvl @ CHR '']'' # r"
    from px [of "CHR '','' # ?rest"] have
      "parse_value n' (newline_indent (Suc lvl) @ json_enc (Suc lvl) x @ CHR '','' # ?rest)
         = Some (x, CHR '','' # ?rest)" by simp
    moreover have "parse_items n' ?rest = Some (xs, r)"
      using Cons.IH [of n'] Cons.prems n \<open>xs = y # ys\<close> by simp
    ultimately show ?thesis using n \<open>xs = y # ys\<close> by simp
  qed
qed


lemma parse_members_enc:
  assumes IH: "\<forall>(k, v) \<in> set ps. \<forall>n r. jsize v < n \<longrightarrow> no_digit_first r \<longrightarrow>
                 parse_value n (json_enc (Suc lvl) v @ r) = Some (v, r)"
    and "ps \<noteq> []" and "sum_list (map (\<lambda>(k, v). jsize v) ps) + 2 * length ps < n"
  shows "parse_members n (newline_indent (Suc lvl) @
           join (CHR '','' # newline_indent (Suc lvl))
             (map (\<lambda>(k, v). json_str k @ '': '' @ json_enc (Suc lvl) v) ps) @
           newline_indent lvl @ CHR ''}'' # r) = Some (ps, r)"
  using assms
proof (induction ps arbitrary: n)
  case Nil
  then show ?case by simp
next
  case (Cons p ps)
  obtain k v where p: "p = (k, v)" by fastforce
  from Cons.prems obtain n' where n: "n = Suc n'" by (cases n) auto
  let ?sep = "CHR '','' # newline_indent (Suc lvl)"
  let ?item = "\<lambda>(k, v). json_str k @ '': '' @ json_enc (Suc lvl) v"
  have step: "parse_members (Suc n') (newline_indent (Suc lvl) @ json_str k @ '': '' @
                json_enc (Suc lvl) v @ r') =
              (case skip_ws r' of
                 [] \<Rightarrow> None
               | e # r4 \<Rightarrow>
                   if e = CHR '','' then map_option (\<lambda>(ms, u). ((k, v) # ms, u)) (parse_members n' r4)
                   else if e = CHR ''}'' then Some ([(k, v)], r4) else None)"
    if "no_digit_first r'" for r'
  proof -
    have "parse_value n' (json_enc (Suc lvl) v @ r') = Some (v, r')"
      using Cons.prems(1,3) p n that by auto
    then show ?thesis
      by (simp add: json_str_def parse_str_json_str [of k "CHR '':'' # CHR '' '' # json_enc (Suc lvl) v @ r'", simplified])
  qed
  show ?case
  proof (cases ps)
    case Nil
    from step [of "newline_indent lvl @ CHR ''}'' # r"] Nil p n show ?thesis by simp
  next
    case (Cons q qs)
    let ?rest = "newline_indent (Suc lvl) @ join ?sep (map ?item ps) @ newline_indent lvl @ CHR ''}'' # r"
    have "parse_members n' ?rest = Some (ps, r)"
      using Cons.IH [of n'] Cons.prems n \<open>ps = q # qs\<close> by auto
    with step [of "CHR '','' # ?rest"] \<open>ps = q # qs\<close> p n show ?thesis by simp
  qed
qed


lemma enc_join_first:
  assumes "xs \<noteq> []"
  shows "\<exists>c t. join sep (map (json_enc lvl) xs) @ r = c # t \<and> c \<notin> set ws_chars \<and>
               c \<noteq> CHR '']'' \<and> c \<noteq> CHR ''}''"
proof -
  obtain x xs' where xs: "xs = x # xs'" using assms by (cases xs) auto
  obtain c t where "json_enc lvl x = c # t" "c \<notin> set ws_chars" "c \<noteq> CHR '']''" "c \<noteq> CHR ''}''"
    using json_enc_first by blast
  with xs show ?thesis by (cases xs') auto
qed

lemma parse_value_json_enc:
  "jsize v < n \<Longrightarrow> no_digit_first r \<Longrightarrow> parse_value n (json_enc lvl v @ r) = Some (v, r)"
proof (induction v arbitrary: lvl n r)
  case JNull
  then show ?case by (cases n) (simp_all add: skip_ws_Cons ws_chars_def)
next
  case (JBool b)
  then show ?case by (cases n) (simp_all add: skip_ws_Cons ws_chars_def)
next
  case (JInt i)
  then obtain n' where n: "n = Suc n'" by (cases n) auto
  obtain c t where ct: "dec_int i = c # t"
    by (cases "dec_int i") (simp_all add: dec_int_def split: if_splits)
  have "c \<in> set (CHR ''-'' # digit_chars)"
  proof (cases "i < 0")
    case True
    with ct show ?thesis by (simp add: dec_int_def)
  next
    case False
    with ct have "c \<in> set (dec_nat (nat i))" by (simp add: dec_int_def)
    then show ?thesis using dec_nat_digits by simp
  qed
  then have c: "c \<notin> set ws_chars" "c \<noteq> CHR ''n''" "c \<noteq> CHR ''t''" "c \<noteq> CHR ''f''"
    "c \<noteq> CHR 0x22" "c \<noteq> CHR ''[''" "c \<noteq> CHR ''{''"
    by (auto simp: digit_chars_def ws_chars_def)
  have "parse_int (dec_int i @ r) = Some (i, r)" using JInt.prems(2) by (rule parse_int_dec_int)
  with n ct c show ?case by (simp add: skip_ws_Cons)
next
  case (JStr x)
  then show ?case by (cases n) (simp_all add: json_str_def parse_str_json_str)
next
  case (JList xs)
  then obtain n' where n: "n = Suc n'" by (cases n) auto
  show ?case
  proof (cases "xs = []")
    case True
    with n show ?thesis by (simp add: skip_ws_Cons ws_chars_def)
  next
    case False
    let ?sep = "CHR '','' # newline_indent (Suc lvl)"
    let ?rest = "newline_indent (Suc lvl) @ join ?sep (map (json_enc (Suc lvl)) xs) @
                 newline_indent lvl @ CHR '']'' # r"
    have items: "parse_items n' ?rest = Some (xs, r)"
      using JList.IH JList.prems(1) n False by (intro parse_items_enc) auto
    obtain c t where ct: "join ?sep (map (json_enc (Suc lvl)) xs) @ newline_indent lvl @ CHR '']'' # r = c # t"
      and c: "c \<notin> set ws_chars" "c \<noteq> CHR '']''"
      using enc_join_first [OF False] by blast
    have "skip_ws ?rest = c # t" using ct c by (simp add: skip_ws_Cons)
    with items n False c show ?thesis by (simp add: skip_ws_Cons ws_chars_def)
  qed
next
  case (JDict ps)
  then obtain n' where n: "n = Suc n'" by (cases n) auto
  show ?case
  proof (cases "ps = []")
    case True
    with n show ?thesis by (simp add: skip_ws_Cons ws_chars_def)
  next
    case False
    let ?sep = "CHR '','' # newline_indent (Suc lvl)"
    let ?item = "\<lambda>(k, v). json_str k @ '': '' @ json_enc (Suc lvl) v"
    let ?rest = "newline_indent (Suc lvl) @ join ?sep (map ?item ps) @
                 newline_indent lvl @ CHR ''}'' # r"
    have IH': "\<forall>(k, v) \<in> set ps. \<forall>n r. jsize v < n \<longrightarrow> no_digit_first r \<longrightarrow>
                 parse_value n (json_enc (Suc lvl) v @ r) = Some (v, r)"
      using JDict.IH by fastforce
    have members: "parse_members n' ?rest = Some (ps, r)"
      using IH' JDict.prems(1) n False by (intro parse_members_enc) auto
    obtain p ps' where ps: "ps = p # ps'" using False by (cases ps) auto
    obtain k v where p: "p = (k, v)" by fastforce
    have "\<exists>t. join ?sep (map ?item ps) @ newline_indent lvl @ CHR ''}'' # r = CHR 0x22 # t"
      using ps p by (cases ps') (auto simp: json_str_def)
    then obtain t where t: "join ?sep (map ?item ps) @ newline_indent lvl @ CHR ''}'' # r = CHR 0x22 # t"
      by blast
    then have "skip_ws (join ?sep (map ?item ps) @ newline_indent lvl @ CHR ''}'' # r) = CHR 0x22 # t"
      by simp
    with members n False show ?thesis by (simp add: skip_ws_Cons ws_chars_def)
  qed
qed


lemma length_join:
  "xs \<noteq> [] \<Longrightarrow> length (join sep xs) = sum_list (map length xs) + (length xs - 1) * length sep"
  by (induction sep xs rule: join.induct) simp_all

lemma length_newline_indent [simp]: "length (newline_indent k) = Suc (4 * k)"
  by (simp add: newline_indent_def)

lemma jsize_le_length: "jsize v \<le> length (json_enc lvl v)"
proof (induction v arbitrary: lvl)
  case (JInt i)
  then show ?case by (simp add: dec_int_def Suc_le_eq)
next
  case (JStr x)
  then show ?case by (simp add: json_str_def)
next
  case (JList xs)
  show ?case
  proof (cases "xs = []")
    case False
    let ?sep = "'','' @ newline_indent (Suc lvl)"
    have "sum_list (map jsize xs) \<le> sum_list (map (\<lambda>x. length (json_enc (Suc lvl) x)) xs)"
      using JList.IH by (intro sum_list_mono) simp
    moreover have "2 * length xs \<le> (length xs - Suc 0) * (6 + 4 * lvl) + 2"
      using False by (cases xs) auto
    ultimately show ?thesis
      using False by (simp add: length_join comp_def)
  qed simp
next
  case (JDict ps)
  show ?case
  proof (cases "ps = []")
    case False
    let ?sep = "'','' @ newline_indent (Suc lvl)"
    let ?item = "\<lambda>(k, v). json_str k @ '': '' @ json_enc (Suc lvl) v"
    have "sum_list (map (\<lambda>(k, v). jsize v) ps) \<le> sum_list (map (\<lambda>p. length (?item p)) ps)"
    proof (intro sum_list_mono)
      fix p assume p: "p \<in> set ps"
      obtain k v where kv: "p = (k, v)" by fastforce
      have "jsize v \<le> length (json_enc (Suc lvl) v)" using JDict.IH [of p v] p kv by simp
      then show "(\<lambda>(k, v). jsize v) p \<le> length (?item p)" using kv by (simp add: json_str_def)
    qed
    moreover have "2 * length ps \<le> (length ps - Suc 0) * (6 + 4 * lvl) + 2"
      using False by (cases ps) auto
    ultimately show ?thesis
      using False by (simp add: length_join comp_def)
  qed simp
qed simp_all

lemma json_load_dump: "json_load (json_dump_indent4 v) = Some v"
proof -
  have "jsize v < Suc (length (json_dump_indent4 v))"
    using jsize_le_length [of v 0] by (simp add: json_dump_indent4_def)
  then have "parse_value (Suc (length (json_dump_indent4 v))) (json_enc 0 v @ []) = Some (v, [])"
    by (intro parse_value_json_enc) (simp_all add: no_digit_first_def)
  then show ?thesis by (simp add: json_load_def json_dump_indent4_def skip_ws_def)
qed

end
