(* ===== verification/Manifest.thy ===== *)
theory Manifest
  imports Vk_Downloader Json_Reader
begin

text \<open>
  The manifest writer, lines 96--97 of \<open>src/program.py\<close>:
  \<^verbatim>\<open>with open("photos.json", "w") as file: json.dump(photos, file, indent=4)\<close>
  Each transfer record is the dict \<open>{'file_name': ..., 'size': ...}\<close> built on line 48,
  serialised by \<open>json_dump_indent4\<close> of theory \<open>Py_Json\<close>; the file is opened
  (created or truncated) and its whole content replaced by the text.  Theory
  \<open>Json_Reader\<close> supplies the reader (\<open>json.load\<close>) that the round trip of the
  manifest is stated with.
\<close>

definition manifest_path :: string where
  "manifest_path = ''photos.json''"

definition transfer_json :: "transfer \<Rightarrow> json" where
  "transfer_json t = JDict [(''file_name'', JStr (tr_file_name t)), (''size'', tr_size t)]"

definition manifest_text :: "transfer list \<Rightarrow> string" where
  "manifest_text photos = json_dump_indent4 (JList (map transfer_json photos))"

definition write_manifest :: "transfer list \<Rightarrow> unit io" where
  "write_manifest photos =
     with_open_write manifest_path (preturn (manifest_text photos))"

lemma write_manifest_state:
  "write_manifest photos s = (Inr (), s') \<Longrightarrow>
   s' = s\<lparr>fs := (fs s)(manifest_path \<mapsto> File (manifest_text photos))\<rparr>"
  by (auto simp: write_manifest_def with_open_write_def open_write_def file_write_def split: sum.splits if_splits)

lemma keeps_fs_wf_write_manifest [intro!]: "keeps fs_wf (write_manifest photos)"
  unfolding write_manifest_def by blast

lemma manifest_path_outside: "manifest_path \<noteq> images_dir" "manifest_path \<noteq> staging_path f"
  by (simp_all add: manifest_path_def images_dir_def staging_path_def path_join_def)

lemma write_manifest_completes:
  "fs s manifest_path \<noteq> Some Dir \<Longrightarrow> \<exists>s'. write_manifest photos s = (Inr (), s')"
  by (simp add: write_manifest_def with_open_write_def open_write_def file_write_def
                parent_state_def manifest_path_def dirname_def)


text \<open>Claim C9.  Round trip of the manifest: after \<open>write_manifest\<close> returns,
  \<open>photos.json\<close> is a file that \<open>json.load\<close> reads back as the list of dicts
  \<open>{"file_name": ..., "size": ...}\<close> of the records, in order.\<close>

theorem write_manifest_roundtrip:
  assumes "write_manifest photos s = (Inr (), s')"
  shows "\<exists>b. fs s' manifest_path = Some (File b) \<and> json_load b = Some (JList (map transfer_json photos))"
  using write_manifest_state [OF assms] by (simp add: manifest_text_def json_load_dump)

theorem write_manifest_roundtrip_witness:
  "\<exists>b. fs (snd (write_manifest [\<lparr>tr_file_name = ''42.jpg'', tr_size = JStr ''x''\<rparr>]
                 \<lparr>fs = Map.empty, console = [], sent = []\<rparr>)) manifest_path = Some (File b) \<and>
       json_load b = Some (JList [JDict [(''file_name'', JStr ''42.jpg''), (''size'', JStr ''x'')]])"
proof -
  let ?ps = "[\<lparr>tr_file_name = ''42.jpg'', tr_size = JStr ''x''\<rparr>]"
  let ?s = "\<lparr>fs = Map.empty, console = [], sent = []\<rparr>"
  have run: "write_manifest ?ps ?s = (Inr (), snd (write_manifest ?ps ?s))"
    by (simp add: write_manifest_def with_open_write_def open_write_def file_write_def
                  parent_state_def manifest_path_def dirname_def)
  from write_manifest_roundtrip [OF run] show ?thesis by (simp add: transfer_json_def)
qed

end
