(* ===== verification/Orchestrator.thy ===== *)
theory Orchestrator
  imports Ya_Uploader Manifest
begin

text \<open>
  The orchestrator, function \<open>main\<close> of \<open>src/program.py\<close> (lines 79--97).  The four
  strings read by \<open>input()\<close> are its parameters; it builds the \<open>VkDownloader\<close>,
  downloads, stops with a message when no record came back (\<open>if not photos\<close>), and
  otherwise builds the \<open>YaUploader\<close>, creates the folder, uploads and writes the
  manifest.  An exception of any call ends \<open>main\<close> with that exception.
\<close>

definition main :: "env \<Rightarrow> string \<Rightarrow> string \<Rightarrow> string \<Rightarrow> string \<Rightarrow> unit io" where
  "main E uid vk_tok ya_tok folder =
     pbind (download_photos E \<lparr>user_id = uid, vk_token = vk_tok\<rparr>) (\<lambda>photos.
       if photos = [] then py_print MsgAbort
       else
         let ya = \<lparr>ya_token = ya_tok, folder_name = folder\<rparr> in
         pseq (create_folder E ya) (pseq (upload_photos E ya photos) (write_manifest photos)))"

end
