(* ===== verification/Pipeline.thy ===== *)
theory Pipeline
  imports Orchestrator
begin

text \<open>
  The run of \<open>main\<close> as a small-step machine, so that invariants can be stated at
  every point of the run and not only at its end.
  \<^item> \<open>pipe_step\<close>: a configuration says where the run is (with the data it carries:
    the catalog payload, the photos still to download, the records so far, the records
    still to upload), and each rule is one statement or one loop iteration of
    \<open>download_photos\<close>, \<open>upload_photos\<close> or \<open>main\<close> in \<open>src/program.py\<close>, run by the
    same computations as \<open>main\<close>; an exception leads to \<open>CFailed\<close>.
  \<^item> \<open>config_run\<close> is what remains of \<open>main\<close> from a configuration; every step keeps
    it (\<open>step_config_run\<close>), and every configuration is final or steps with a
    decrease of \<open>config_order\<close>, so the runs of the machine are exactly the runs of
    \<open>main\<close> (\<open>main_pipeline\<close>).
  \<^item> \<open>staged\<close>: the records a configuration carries name files in \<open>images_vk\<close>; it
    holds at every reachable configuration, and the upload loop's only local action,
    opening a staged file, therefore never fails.
\<close>

datatype config =
    CStart
  | CFetched json
  | CMaterialize "json list" "transfer list"
  | CMaterialized "transfer list"
  | CFolder "transfer list"
  | CPublish "transfer list" "transfer list"
  | CPublished "transfer list"
  | CDone
  | CAbort
  | CFailed exn

fun final_result :: "config \<Rightarrow> (exn + unit) option" where
  "final_result CDone = Some (Inr ())"
| "final_result CAbort = Some (Inr ())"
| "final_result (CFailed e) = Some (Inl e)"
| "final_result _ = None"

text \<open>The steps.  \<open>E\<close> is the environment, \<open>vkd\<close> and \<open>ya\<close> the two objects
  \<open>main\<close> builds from its inputs.\<close>

inductive pipe_step ::
  "env \<Rightarrow> vk_downloader \<Rightarrow> ya_uploader \<Rightarrow> config \<times> sys \<Rightarrow> config \<times> sys \<Rightarrow> bool"
  for E vkd ya where
  fetch: "get_photos E vkd 0 5 s = (Inr data, s') \<Longrightarrow>
     pipe_step E vkd ya (CStart, s) (CFetched data, s')"
| fetch_fail: "get_photos E vkd 0 5 s = (Inl e, s') \<Longrightarrow>
     pipe_step E vkd ya (CStart, s) (CFailed e, s')"
| catalog_key_error: "catalog_items data = Inl KeyError \<Longrightarrow>
     pipe_step E vkd ya (CFetched data, s)
       (CMaterialized [], s\<lparr>console := console s @ [MsgPhotosError data]\<rparr>)"
| catalog_raise: "catalog_items data = Inl e \<Longrightarrow> e \<noteq> KeyError \<Longrightarrow>
     pipe_step E vkd ya (CFetched data, s) (CFailed e, s)"
| catalog_items: "catalog_items data = Inr items \<Longrightarrow>
     pseq ensure_images_dir (plift (py_iter items)) s = (Inr ps, s') \<Longrightarrow>
     pipe_step E vkd ya (CFetched data, s) (CMaterialize ps [], s')"
| catalog_items_fail: "catalog_items data = Inr items \<Longrightarrow>
     pseq ensure_images_dir (plift (py_iter items)) s = (Inl e, s') \<Longrightarrow>
     pipe_step E vkd ya (CFetched data, s) (CFailed e, s')"
| photo: "download_photo E p s = (Inr r, s') \<Longrightarrow>
     pipe_step E vkd ya (CMaterialize (p # ps) acc, s)
       (CMaterialize ps (case r of None \<Rightarrow> acc | Some t \<Rightarrow> acc @ [t]), s')"
| photo_fail: "download_photo E p s = (Inl e, s') \<Longrightarrow>
     pipe_step E vkd ya (CMaterialize (p # ps) acc, s) (CFailed e, s')"
| materialized: "pipe_step E vkd ya (CMaterialize [] acc, s) (CMaterialized acc, s)"
| abort: "pipe_step E vkd ya (CMaterialized [], s) (CAbort, s\<lparr>console := console s @ [MsgAbort]\<rparr>)"
| continue: "photos \<noteq> [] \<Longrightarrow> pipe_step E vkd ya (CMaterialized photos, s) (CFolder photos, s)"
| folder: "create_folder E ya s = (Inr (), s') \<Longrightarrow>
     pipe_step E vkd ya (CFolder photos, s) (CPublish photos photos, s')"
| folder_fail: "create_folder E ya s = (Inl e, s') \<Longrightarrow>
     pipe_step E vkd ya (CFolder photos, s) (CFailed e, s')"
| upload: "upload_photo E ya p s = (Inr (), s') \<Longrightarrow>
     pipe_step E vkd ya (CPublish (p # ps) photos, s) (CPublish ps photos, s')"
| upload_fail: "upload_photo E ya p s = (Inl e, s') \<Longrightarrow>
     pipe_step E vkd ya (CPublish (p # ps) photos, s) (CFailed e, s')"
| published: "pipe_step E vkd ya (CPublish [] photos, s) (CPublished photos, s)"
| manifest: "write_manifest photos s = (Inr (), s') \<Longrightarrow>
     pipe_step E vkd ya (CPublished photos, s) (CDone, s')"
| manifest_fail: "write_manifest photos s = (Inl e, s') \<Longrightarrow>
     pipe_step E vkd ya (CPublished photos, s) (CFailed e, s')"

text \<open>What remains of \<open>main\<close> from a configuration.\<close>

definition after_download :: "env \<Rightarrow> ya_uploader \<Rightarrow> transfer list \<Rightarrow> unit io" where
  "after_download E ya photos =
     (if photos = [] then py_print MsgAbort
      else pseq (create_folder E ya) (pseq (upload_photos E ya photos) (write_manifest photos)))"

fun config_run :: "env \<Rightarrow> vk_downloader \<Rightarrow> ya_uploader \<Rightarrow> config \<Rightarrow> unit io" where
  "config_run E vkd ya CStart = pbind (download_photos E vkd) (after_download E ya)"
| "config_run E vkd ya (CFetched data) =
     pbind (case catalog_items data of
              Inl e \<Rightarrow> (if e = KeyError then pseq (py_print (MsgPhotosError data)) (preturn [])
                        else praise e)
            | Inr items \<Rightarrow>
                pseq ensure_images_dir
                  (pbind (plift (py_iter items)) (\<lambda>photos. download_loop E photos [])))
       (after_download E ya)"
| "config_run E vkd ya (CMaterialize ps acc) = pbind (download_loop E ps acc) (after_download E ya)"
| "config_run E vkd ya (CMaterialized photos) = after_download E ya photos"
| "config_run E vkd ya (CFolder photos) =
     pseq (create_folder E ya) (pseq (upload_photos E ya photos) (write_manifest photos))"
| "config_run E vkd ya (CPublish ps photos) =
     pseq (upload_photos E ya ps) (write_manifest photos)"
| "config_run E vkd ya (CPublished photos) = write_manifest photos"
| "config_run E vkd ya CDone = preturn ()"
| "config_run E vkd ya CAbort = preturn ()"
| "config_run E vkd ya (CFailed e) = praise e"

text \<open>A measure that every step decreases: the phase, then the work left in it.\<close>

fun phase_num :: "config \<Rightarrow> nat" where
  "phase_num CStart = 7"
| "phase_num (CFetched _) = 6"
| "phase_num (CMaterialize _ _) = 5"
| "phase_num (CMaterialized _) = 4"
| "phase_num (CFolder _) = 3"
| "phase_num (CPublish _ _) = 2"
| "phase_num (CPublished _) = 1"
| "phase_num _ = 0"

fun pending :: "config \<Rightarrow> nat" where
  "pending (CMaterialize ps _) = length ps"
| "pending (CPublish ps _) = length ps"
| "pending _ = 0"

definition config_order :: "((config \<times> sys) \<times> (config \<times> sys)) set" where
  "config_order = measures [\<lambda>(c, s). phase_num c, \<lambda>(c, s). pending c]"

text \<open>The transfer records a configuration carries that name staged files still to be
  read: the records collected so far, and those still to upload.\<close>

fun records :: "config \<Rightarrow> transfer list" where
  "records (CMaterialize _ acc) = acc"
| "records (CMaterialized photos) = photos"
| "records (CFolder photos) = photos"
| "records (CPublish ps _) = ps"
| "records _ = []"

definition staged :: "config \<Rightarrow> sys \<Rightarrow> bool" where
  "staged c s \<longleftrightarrow> (\<forall>t \<in> set (records c). is_file s (staging_path (tr_file_name t)))"

section \<open>Lemmas\<close>


lemma unit_io_cases:
  fixes m :: "unit io"
  obtains e s' where "m s = (Inl e, s')" | s' where "m s = (Inr (), s')"
  by (cases "m s" rule: prod.exhaust) (metis sum.exhaust old.unit.exhaust)

lemma main_config_run:
  "main E uid vt yt folder =
   config_run E \<lparr>user_id = uid, vk_token = vt\<rparr> \<lparr>ya_token = yt, folder_name = folder\<rparr> CStart"
  by (simp add: main_def after_download_def [abs_def] Let_def cong: if_cong)

lemma step_config_run:
  "pipe_step E vkd ya cs cs' \<Longrightarrow>
   config_run E vkd ya (fst cs) (snd cs) = config_run E vkd ya (fst cs') (snd cs')"
proof (induction rule: pipe_step.induct)
  case (catalog_items data items s ps s')
  then have "pseq ensure_images_dir (pbind (plift (py_iter items)) (\<lambda>photos. download_loop E photos [])) s
             = download_loop E ps [] s'"
    by (auto split: prod.splits sum.splits)
  with catalog_items.hyps(1) show ?case by simp
next
  case (catalog_items_fail data items s e s')
  then have "pseq ensure_images_dir (pbind (plift (py_iter items)) (\<lambda>photos. download_loop E photos [])) s
             = (Inl e, s')"
    by (auto split: prod.splits sum.splits)
  with catalog_items_fail.hyps(1) show ?case by simp
qed (simp_all add: download_photos_def after_download_def upload_photos_def py_print_def
                   split: prod.splits sum.splits)

lemma final_config_run: "final_result c = Some r \<Longrightarrow> config_run E vkd ya c s = (r, s)"
  by (cases c) auto

lemma step_order: "pipe_step E vkd ya cs cs' \<Longrightarrow> (cs', cs) \<in> config_order"
  by (induction rule: pipe_step.induct) (simp_all add: config_order_def)

lemma pipe_step_progress:
  assumes "final_result c = None"
  shows "\<exists>c' s'. pipe_step E vkd ya (c, s) (c', s')"
proof (cases c)
  case CStart
  then show ?thesis
    by (cases "get_photos E vkd 0 5 s" rule: prod.exhaust, rename_tac x s', case_tac x)
       (blast intro: pipe_step.intros)+
next
  case (CFetched data)
  show ?thesis
  proof (cases "catalog_items data")
    case (Inl e)
    with CFetched show ?thesis by (cases "e = KeyError") (blast intro: pipe_step.intros)+
  next
    case (Inr items)
    with CFetched show ?thesis
      by (cases "pseq ensure_images_dir (plift (py_iter items)) s" rule: prod.exhaust,
          rename_tac x s', case_tac x) (blast intro: pipe_step.intros)+
  qed
next
  case (CMaterialize ps acc)
  then show ?thesis
  proof (cases ps)
    case Nil
    with CMaterialize show ?thesis by (blast intro: pipe_step.intros)+
  next
    case (Cons p qs)
    with CMaterialize show ?thesis
      by (cases "download_photo E p s" rule: prod.exhaust, rename_tac x s', case_tac x)
         (blast intro: pipe_step.intros)+
  qed
next
  case (CMaterialized photos)
  then show ?thesis by (cases "photos = []") (blast intro: pipe_step.intros)+
next
  case (CFolder photos)
  then show ?thesis
    by (cases rule: unit_io_cases [of "create_folder E ya" s])
       (blast intro: pipe_step.intros)+
next
  case (CPublish ps photos)
  then show ?thesis
  proof (cases ps)
    case Nil
    with CPublish show ?thesis by (blast intro: pipe_step.intros)+
  next
    case (Cons p qs)
    with CPublish show ?thesis
      by (cases rule: unit_io_cases [of "upload_photo E ya p" s])
         (blast intro: pipe_step.intros)+
  qed
next
  case (CPublished photos)
  then show ?thesis
    by (cases rule: unit_io_cases [of "write_manifest photos" s])
       (blast intro: pipe_step.intros)+
qed (use assms in simp_all)

lemma wf_config_order: "wf config_order"
  by (simp add: config_order_def wf_measures)

lemma star_config_run:
  "(pipe_step E vkd ya)\<^sup>*\<^sup>* cs cs' \<Longrightarrow>
   config_run E vkd ya (fst cs) (snd cs) = config_run E vkd ya (fst cs') (snd cs')"
  by (induction rule: rtranclp_induct) (auto dest: step_config_run)

lemma pipe_reaches_final:
  "\<exists>cs'. (pipe_step E vkd ya)\<^sup>*\<^sup>* cs cs' \<and> final_result (fst cs') \<noteq> None"
proof (induction cs rule: wf_induct_rule [OF wf_config_order])
  case (1 cs)
  obtain c s where cs: "cs = (c, s)" by fastforce
  show ?case
  proof (cases "final_result c")
    case None
    then obtain c1 s1 where st: "pipe_step E vkd ya (c, s) (c1, s1)"
      using pipe_step_progress by blast
    then have "((c1, s1), (c, s)) \<in> config_order" by (rule step_order)
    with 1 cs obtain cs' where "(pipe_step E vkd ya)\<^sup>*\<^sup>* (c1, s1) cs'" "final_result (fst cs') \<noteq> None"
      by blast
    with st cs show ?thesis by (meson converse_rtranclp_into_rtranclp)
  qed (use cs in auto)
qed

text \<open>Every run ends: from every configuration and state the machine reaches a final
  configuration, since every non-final configuration steps (\<open>pipe_step_progress\<close>) and
  every step decreases \<open>config_order\<close> (\<open>step_order\<close>).\<close>

lemma pipe_step_terminates:
  "\<exists>c' s'. (pipe_step E vkd ya)\<^sup>*\<^sup>* (c, s) (c', s') \<and> final_result c' \<noteq> None"
  using pipe_reaches_final [of E vkd ya "(c, s)"] by auto

text \<open>Adequacy of the machine: \<open>main\<close> ends with result \<open>r\<close> in state \<open>s'\<close>
  exactly when the machine runs from \<open>CStart\<close> to a final configuration with outcome
  \<open>r\<close> in state \<open>s'\<close>.  This is what makes the invariants below statements about
  \<open>main\<close>.\<close>

lemma main_pipeline:
  "main E uid vt yt folder s = (r, s') \<longleftrightarrow>
   (\<exists>c. (pipe_step E \<lparr>user_id = uid, vk_token = vt\<rparr> \<lparr>ya_token = yt, folder_name = folder\<rparr>)\<^sup>*\<^sup>*
          (CStart, s) (c, s') \<and> final_result c = Some r)"
  (is "_ \<longleftrightarrow> (\<exists>c. ?star (CStart, s) (c, s') \<and> _)")
proof
  assume m: "main E uid vt yt folder s = (r, s')"
  obtain c1 s1 where st: "?star (CStart, s) (c1, s1)" and f: "final_result c1 \<noteq> None"
    using pipe_reaches_final [of _ _ _ "(CStart, s)"] by fastforce
  then obtain r1 where r1: "final_result c1 = Some r1" by blast
  from star_config_run [OF st] final_config_run [OF r1] m have "r1 = r" "s1 = s'"
    by (simp_all add: main_config_run)
  with st r1 show "\<exists>c. ?star (CStart, s) (c, s') \<and> final_result c = Some r" by blast
next
  assume "\<exists>c. ?star (CStart, s) (c, s') \<and> final_result c = Some r"
  then obtain c where st: "?star (CStart, s) (c, s')" and r: "final_result c = Some r" by blast
  from star_config_run [OF st] final_config_run [OF r] show "main E uid vt yt folder s = (r, s')"
    by (simp add: main_config_run)
qed

lemma keeps_fs_wf_catalog_items [intro!]:
  "keeps fs_wf (pseq ensure_images_dir (plift (py_iter items)))"
  by blast

lemma pipe_step_fs_wf:
  assumes "pipe_step E vkd ya (c, s) (c', s')" and "fs_wf s"
  shows "fs_wf s'"
  using assms(1)
proof (cases rule: pipe_step.cases)
  case (fetch data)
  with assms(2) show ?thesis by (metis keepsD keeps_fs_wf_get_photos)
next
  case (fetch_fail e)
  with assms(2) show ?thesis by (metis keepsD keeps_fs_wf_get_photos)
next
  case (photo p r ps acc)
  with assms(2) show ?thesis by (metis keepsD keeps_fs_wf_download_photo)
next
  case (photo_fail p e ps acc)
  with assms(2) show ?thesis by (metis keepsD keeps_fs_wf_download_photo)
next
  case (folder photos)
  with assms(2) show ?thesis by (metis keepsD keeps_fs_wf_create_folder)
next
  case (folder_fail e photos)
  with assms(2) show ?thesis by (metis keepsD keeps_fs_wf_create_folder)
next
  case (upload p ps photos)
  with assms(2) show ?thesis by (metis keepsD keeps_fs_wf_upload_photo)
next
  case (upload_fail p e ps photos)
  with assms(2) show ?thesis by (metis keepsD keeps_fs_wf_upload_photo)
next
  case (manifest photos)
  with assms(2) show ?thesis by (metis keepsD keeps_fs_wf_write_manifest)
next
  case (manifest_fail photos e)
  with assms(2) show ?thesis by (metis keepsD keeps_fs_wf_write_manifest)
next
  case (catalog_items data items ps)
  with assms(2) show ?thesis by (metis keepsD keeps_fs_wf_catalog_items)
next
  case (catalog_items_fail data items e)
  with assms(2) show ?thesis by (metis keepsD keeps_fs_wf_catalog_items)
qed (use assms(2) in simp_all)

lemma pipe_step_staged:
  assumes "pipe_step E vkd ya (c, s) (c', s')" and "staged c s"
  shows "staged c' s'"
  using assms(1)
proof (cases rule: pipe_step.cases)
  case (photo p r ps acc)
  then have "files_kept s s'" "\<forall>t. r = Some t \<longrightarrow> is_file s' (staging_path (tr_file_name t))"
    using download_photo_staged by blast+
  with photo assms(2) show ?thesis
    by (cases r) (simp_all add: staged_def files_kept_def)
next
  case (folder photos)
  then have "fs s' = fs s" by (blast intro: fs_frameD)
  with folder assms(2) show ?thesis by (simp add: staged_def is_file_def)
next
  case (upload p ps photos)
  then have "fs s' = fs s" by (blast intro: fs_frameD)
  with upload assms(2) show ?thesis by (simp add: staged_def is_file_def)
qed (use assms(2) in \<open>simp_all add: staged_def\<close>)

lemma star_staged:
  "(pipe_step E vkd ya)\<^sup>*\<^sup>* (c, s) (c', s') \<Longrightarrow> staged c s \<Longrightarrow> staged c' s'"
  by (induction rule: rtranclp_induct2) (auto intro: pipe_step_staged)

lemma star_fs_wf:
  "(pipe_step E vkd ya)\<^sup>*\<^sup>* (c, s) (c', s') \<Longrightarrow> fs_wf s \<Longrightarrow> fs_wf s'"
  by (induction rule: rtranclp_induct2) (auto intro: pipe_step_fs_wf)

text \<open>Claim C10.  Invariant of the run: at every configuration reached from the start in a
  well-formed file system, the file system is still well formed and every transfer record
  the configuration carries (collected so far, or still to upload) names a staged file
  \<open>images_vk/<file_name>\<close>.\<close>

theorem pipe_reach_inv:
  assumes "(pipe_step E vkd ya)\<^sup>*\<^sup>* (CStart, s) (c, s')" and "fs_wf s"
  shows "fs_wf s' \<and> staged c s'"
  using star_fs_wf [OF assms] star_staged [OF assms(1)] by (simp add: staged_def)

text \<open>Claim C11.  The upload loop never fails on a local file: when a reachable upload
  step fails, the exception is one of the remote side (\<open>requests\<close> raising, a body that
  is not JSON, or a body that is not a JSON object), never \<open>FileNotFoundError\<close> or
  \<open>IsADirectoryError\<close> from opening the staged file.\<close>

theorem upload_fails_remote_only:
  assumes "(pipe_step E vkd ya)\<^sup>*\<^sup>* (CStart, s) (CPublish ps photos, s1)"
    and "pipe_step E vkd ya (CPublish ps photos, s1) (CFailed e, s2)"
  shows "e \<in> {RequestException, JSONDecodeError, AttributeError}"
proof -
  have st: "staged (CPublish ps photos) s1" using star_staged [OF assms(1)] by (simp add: staged_def)
  from assms(2) obtain p qs where ps: "ps = p # qs" and up: "upload_photo E ya p s1 = (Inl e, s2)"
    by (cases rule: pipe_step.cases) auto
  from st ps obtain b where "fs s1 (staging_path (tr_file_name p)) = Some (File b)"
    by (auto simp: staged_def is_file_def)
  with up show ?thesis by (rule upload_photo_fail_remote)
qed

theorem pipe_reach_inv_witness:
  "fs_wf \<lparr>fs = Map.empty, console = [],
           sent = [get_photos_request \<lparr>user_id = ''1'', vk_token = ''t''\<rparr> 0 5]\<rparr> \<and>
   staged (CFailed RequestException) \<lparr>fs = Map.empty, console = [],
           sent = [get_photos_request \<lparr>user_id = ''1'', vk_token = ''t''\<rparr> 0 5]\<rparr>"
proof -
  have "get_photos (\<lambda>h r. None) \<lparr>user_id = ''1'', vk_token = ''t''\<rparr> 0 5
          \<lparr>fs = Map.empty, console = [], sent = []\<rparr> =
        (Inl RequestException, \<lparr>fs = Map.empty, console = [],
             sent = [get_photos_request \<lparr>user_id = ''1'', vk_token = ''t''\<rparr> 0 5]\<rparr>)"
    by (simp add: get_photos_def http_def)
  then have "pipe_step (\<lambda>h r. None) \<lparr>user_id = ''1'', vk_token = ''t''\<rparr>
              \<lparr>ya_token = ''y'', folder_name = ''b''\<rparr>
              (CStart, \<lparr>fs = Map.empty, console = [], sent = []\<rparr>)
              (CFailed RequestException, \<lparr>fs = Map.empty, console = [],
                 sent = [get_photos_request \<lparr>user_id = ''1'', vk_token = ''t''\<rparr> 0 5]\<rparr>)"
    by (rule pipe_step.fetch_fail)
  then have "(pipe_step (\<lambda>h r. None) \<lparr>user_id = ''1'', vk_token = ''t''\<rparr>
              \<lparr>ya_token = ''y'', folder_name = ''b''\<rparr>)\<^sup>*\<^sup>*
              (CStart, \<lparr>fs = Map.empty, console = [], sent = []\<rparr>)
              (CFailed RequestException, \<lparr>fs = Map.empty, console = [],
                 sent = [get_photos_request \<lparr>user_id = ''1'', vk_token = ''t''\<rparr> 0 5]\<rparr>)"
    by (rule r_into_rtranclp)
  moreover have "fs_wf \<lparr>fs = Map.empty, console = [], sent = []\<rparr>" by (simp add: fs_wf_def)
  ultimately show ?thesis by (rule pipe_reach_inv)
qed

end
