(* ===== verification/Spec2Isabelle.thy ===== *)
theory Spec2Isabelle
  imports Pipeline
begin

text \<open>
  \<^bold>\<open>A verification development of the photo backup script \<open>src/program.py\<close>.\<close>

  \<^medskip>\<^bold>\<open>The program.\<close>  A sequential pipeline: \<open>main\<close> (lines 79--97) reads four
  strings, asks \<open>VkDownloader.download_photos\<close> for the transfer records of at most
  five profile photos (one \<open>photos.get\<close> call, one image download per photo into
  \<open>images_vk/<likes>.jpg\<close>), stops with a message when the list is empty, and
  otherwise calls \<open>YaUploader.create_folder\<close>, \<open>YaUploader.upload_photos\<close> (an
  upload link and one \<open>PUT\<close> per record) and writes \<open>photos.json\<close>.

  \<^medskip>\<^bold>\<open>The model.\<close>  Each theory models one part, in the order the code calls them:
  \<^item> \<open>Backup_Prelude\<close>: the exceptions, and computations \<open>('s, 'a) prog\<close> that return a
    result or an exception together with the state left behind (Python keeps every side
    effect made before an exception); \<open>pbind\<close>, \<open>pseq\<close>, \<open>pforeach\<close> compose them.
  \<^item> \<open>Py_Json\<close>: JSON values as Python sees them and the built-ins the code applies to
    them (subscription, \<open>.get\<close>, truth, iteration, \<open>*\<close>, \<open>>\<close>, \<open>str\<close>,
    \<open>json.dump(indent=4)\<close>).
  \<^item> \<open>Io_World\<close>: the state \<open>sys\<close> (file system, console, requests sent) and the
    library calls on it; the remote services are an environment \<open>env\<close> that answers
    each request given the history, universally quantified in the theorems.
  \<^item> \<open>Size_Selector\<close>: line 42, \<open>max(sizes, key=...)\<close>.
  \<^item> \<open>Vk_Downloader\<close>: lines 6--49, and the specification's catalog (photo records
    with size variants) with the transfer list it promises.
  \<^item> \<open>Ya_Uploader\<close>: lines 51--77.
  \<^item> \<open>Json_Reader\<close>: a reader modelled on \<open>json.load\<close> (library, not program code),
    used to state what the manifest file reads back as.
  \<^item> \<open>Manifest\<close>: lines 96--97.
  \<^item> \<open>Orchestrator\<close>: \<open>main\<close>, lines 79--97.
  \<^item> \<open>Pipeline\<close>: the same run as a small-step relation \<open>pipe_step\<close> on
    configurations (one rule per statement or loop iteration of \<open>download_photos\<close>,
    \<open>upload_photos\<close> and \<open>main\<close>, each running the same computations), proved to
    have exactly the runs of \<open>main\<close>; it carries the invariants that hold at every point
    of a run.  \<open>config_run\<close> is what remains of \<open>main\<close> from a configuration;
    \<open>config_order\<close> (phase, then items left in the loop) is the measure every step
    decreases.
  \<^item> this theory: fixtures for concrete runs, and the
    properties of the whole run.
  The record \<open>vk_downloader\<close> (\<open>ya_uploader\<close>) is the object's fields; each method is a
  computation over \<open>sys\<close>; a loop over a Python list is a structural recursion
  (\<open>download_loop\<close>, \<open>pforeach\<close>), so every function is total and no fuel is needed.  Only the JSON
  reader uses fuel, for its nesting: \<open>json_load\<close> gives it one more than the length
  of the text, which \<open>jsize_le_length\<close> shows is enough for every printed value.
  \<open>get_photos\<close> is called with the defaults \<open>offset = 0\<close>, \<open>count = 5\<close>, as
  \<open>download_photos\<close> does; the bound is a request parameter, so no property depends on it.

  \<^medskip>\<^bold>\<open>What is proved.\<close>
  \<^item> Selector: on sizes with integer dimensions the built-in \<open>max\<close> returns a size of
    largest area that every earlier size is strictly smaller than (the first maximum).
  \<^item> Download: refinement of \<open>download_photos\<close> against the specification's transfer
    list (photo records with variants, \<open>spec_transfers\<close>); the catalog error path
    (\<open>KeyError\<close> caught, everything else raised); every returned record names a staged
    file; the content of the staging area after the download (the file for a likes count
    holds the image of the last photo with that count, \<open>last_image\<close>), which shows that
    photos with equal likes overwrite each other; a failed image request leaves the staged
    file empty.
  \<^item> Upload: \<open>create_folder\<close> reports every status and never stops the run;
    \<open>upload_photos\<close> sends, per record in order, the upload link for
    \<open><folder>/<file_name>\<close> and a \<open>PUT\<close> of the staged bytes.
  \<^item> Manifest: the file \<open>write_manifest\<close> leaves reads back with \<open>json.load\<close> as the
    list of \<open>{file_name, size}\<close> dicts of the records (the reader accepts every text
    \<open>json_dump_indent4\<close> prints, \<open>json_load_dump\<close>).
  \<^item> Whole run: the request sequence and the manifest of a completed run; the abort paths
    (catalog error, empty download); liveness: under answers of the expected shapes
    \<open>main\<close> returns normally; the answers to the upload \<open>PUT\<close>s never influence the
    run (\<open>agree_except_bodies\<close>), so rejected uploads go unnoticed.
  \<^item> Pipeline: at every reachable configuration the file system is well formed and the
    records the configuration carries name staged files, so a failing upload step fails on
    the remote side only.
  Helper facts the claims rest on: \<open>main_pipeline\<close> (the machine has exactly the runs
  of \<open>main\<close>), \<open>pipe_step_terminates\<close>, the frame lemmas of \<open>Io_World\<close>, the
  injectivity of the decimal file names (\<open>dec_nat_inj\<close>, \<open>spec_file_name_inj\<close>).

  \<^medskip>\<^bold>\<open>Not modelled.\<close>  Time: a request is answered or raises at once, so a
  request without timeout that blocks forever (the specification's section 5) cannot be
  expressed; the state \<open>sent\<close> records every request \<open>requests\<close> was asked to make,
  also when it raised before anything was sent.  \<open>input()\<close> (its four strings are the parameters of
  \<open>main\<close>); the \<open>tqdm\<close> progress bar (terminal output only); the message texts
  (kept as message kinds with their arguments); \<open>requests\<close> and the remote services,
  which are the environment; float JSON numbers and list-valued \<open>max\<close> keys; Unicode:
  strings are byte strings, so \<open>ensure_ascii\<close> escapes bytes; path normalisation and
  multi-level \<open>os.makedirs\<close> (the program creates one directory in the working
  directory).

  \<^medskip>\<^bold>\<open>Plan for the next steps.\<close>  A total characterisation of the exceptions of
  \<open>download_photo\<close>; the bounds of \<open>get_photos\<close> (offset, count).
\<close>

section \<open>Fixtures for the scenarios\<close>

text \<open>Environments and states the concrete scenarios run in: \<open>fixture_env\<close> answers the
  catalog request with a given payload, the folder request with a given status, the
  upload-link request with an \<open>href\<close> derived from the requested path, every other
  \<open>PUT\<close> with a given status, and every other \<open>GET\<close> (an image download) with the
  URL as content; \<open>link_down_env\<close> is \<open>fixture_env\<close> with every upload-link request raising.\<close>

definition fixture_env :: "json \<Rightarrow> int \<Rightarrow> int \<Rightarrow> env" where
  "fixture_env catalog folder_status put_status h r =
     (if req_url r = vk_photos_url
      then Some \<lparr>status_code = 200, content = [], resp_text = [], resp_json = Some catalog\<rparr>
      else if req_url r = disk_resources_url
      then Some \<lparr>status_code = folder_status, content = [], resp_text = ''error'', resp_json = None\<rparr>
      else if req_url r = disk_upload_url
      then Some \<lparr>status_code = 200, content = [], resp_text = [],
                 resp_json = Some (JDict [(''href'', JStr (''https://upload/'' @
                   (case map_of (req_params r) ''path'' of None \<Rightarrow> [] | Some p \<Rightarrow> p)))])\<rparr>
      else if req_method r = PUT
      then Some \<lparr>status_code = put_status, content = [], resp_text = [], resp_json = None\<rparr>
      else Some \<lparr>status_code = 200, content = req_url r, resp_text = [], resp_json = None\<rparr>)"

definition link_down_env :: "json \<Rightarrow> env" where
  "link_down_env catalog h r =
     (if req_url r = disk_upload_url then None else fixture_env catalog 201 201 h r)"

definition fresh_sys :: sys where
  "fresh_sys = \<lparr>fs = Map.empty, console = [], sent = []\<rparr>"

definition photo42 :: photo_record where
  "photo42 = \<lparr>pr_likes = 42, pr_sizes =
      [\<lparr>sv_url = ''u1'', sv_width = 100, sv_height = 100, sv_type = ''m''\<rparr>,
       \<lparr>sv_url = ''u2'', sv_width = 400, sv_height = 300, sv_type = ''x''\<rparr>]\<rparr>"

lemmas main_eval_simps = main_def download_eval_simps create_folder_def create_folder_request_def
  upload_photos_def upload_photo_def upload_link_request_def put_request_def write_manifest_def
  manifest_path_def disk_resources_url_def disk_upload_url_def auth_headers_def remote_path_def
  fixture_env_def fresh_sys_def catalog_json_def photo_json_def variant_json_def
  photo42_def

section \<open>Lemmas\<close>

lemma create_folder_state:
  "create_folder E ya s = (Inr (), s') \<Longrightarrow>
   fs s' = fs s \<and> sent s' = sent s @ [create_folder_request ya]"
  by (auto simp: create_folder_def http_def py_print_def split: option.splits if_splits)

section \<open>Properties of the whole run\<close>

text \<open>Claim C2.  A completed run that downloaded a non-empty list of records sends, after the download, the folder request and then, for each record in order, the upload-link request for \<open><folder>/<file_name>\<close> and a \<open>PUT\<close> of the staged file, whatever status the folder request got; and the only file it changes is \<open>photos.json\<close>, which holds the manifest of exactly those records.\<close>

theorem main_run:
  assumes run: "main E uid vt yt folder s = (Inr (), s')"
    and dl: "download_photos E \<lparr>user_id = uid, vk_token = vt\<rparr> s = (Inr photos, s1)"
    and ne: "photos \<noteq> []"
  shows "\<exists>puts. sent s' = sent s1 @ create_folder_request \<lparr>ya_token = yt, folder_name = folder\<rparr> #
                         upload_trace \<lparr>ya_token = yt, folder_name = folder\<rparr> photos puts \<and>
               puts_carry_files s1 photos puts \<and>
               fs s' = (fs s1)(manifest_path \<mapsto> File (manifest_text photos))"
proof -
  let ?ya = "\<lparr>ya_token = yt, folder_name = folder\<rparr>"
  obtain x2 s2 where cf: "create_folder E ?ya s1 = (x2, s2)" by fastforce
  obtain x3 s3 where up: "upload_photos E ?ya photos s2 = (x3, s3)" by fastforce
  from run dl ne cf up have x2: "x2 = Inr ()" and x3: "x3 = Inr ()"
    and wm: "write_manifest photos s3 = (Inr (), s')"
    by (auto simp: main_def Let_def split: sum.splits)
  from cf x2 have s2: "fs s2 = fs s1 \<and> sent s2 = sent s1 @ [create_folder_request ?ya]"
    by (simp add: create_folder_state)
  from up x3 obtain puts where s3: "sent s3 = sent s2 @ upload_trace ?ya photos puts"
    "puts_carry_files s2 photos puts" "fs s3 = fs s2"
    unfolding upload_photos_def using upload_photos_effect by blast
  have "puts_carry_files s1 photos puts"
    using s3(2) s2 by (simp add: puts_carry_files_def)
  with s2 s3 write_manifest_state [OF wm] show ?thesis by auto
qed

theorem main_run_witness:
  "\<exists>s1 s'. download_photos (fixture_env (catalog_json [photo42]) 201 201)
              \<lparr>user_id = ''1'', vk_token = ''t''\<rparr> fresh_sys =
              (Inr [\<lparr>tr_file_name = ''42.jpg'', tr_size = JStr ''x''\<rparr>], s1) \<and>
           main (fixture_env (catalog_json [photo42]) 201 201) ''1'' ''t'' ''y'' ''backup'' fresh_sys =
              (Inr (), s') \<and>
           [\<lparr>tr_file_name = ''42.jpg'', tr_size = JStr ''x''\<rparr>] \<noteq> [] \<and>
           (\<exists>puts. sent s' = sent s1 @ create_folder_request \<lparr>ya_token = ''y'', folder_name = ''backup''\<rparr> #
                             upload_trace \<lparr>ya_token = ''y'', folder_name = ''backup''\<rparr>
                               [\<lparr>tr_file_name = ''42.jpg'', tr_size = JStr ''x''\<rparr>] puts \<and>
                   puts_carry_files s1 [\<lparr>tr_file_name = ''42.jpg'', tr_size = JStr ''x''\<rparr>] puts \<and>
                   fs s' = (fs s1)(manifest_path \<mapsto>
                             File (manifest_text [\<lparr>tr_file_name = ''42.jpg'', tr_size = JStr ''x''\<rparr>])))"
proof -
  let ?E = "fixture_env (catalog_json [photo42]) 201 201"
  let ?ps = "[\<lparr>tr_file_name = ''42.jpg'', tr_size = JStr ''x''\<rparr>]"
  have "\<exists>s1. download_photos ?E \<lparr>user_id = ''1'', vk_token = ''t''\<rparr> fresh_sys = (Inr ?ps, s1)"
    by (simp add: main_eval_simps)
  then obtain s1 where dl: "download_photos ?E \<lparr>user_id = ''1'', vk_token = ''t''\<rparr> fresh_sys = (Inr ?ps, s1)" ..
  have "\<exists>s'. main ?E ''1'' ''t'' ''y'' ''backup'' fresh_sys = (Inr (), s')"
    by (simp add: main_eval_simps)
  then obtain s' where run: "main ?E ''1'' ''t'' ''y'' ''backup'' fresh_sys = (Inr (), s')" ..
  have ne: "?ps \<noteq> []" by simp
  from dl run ne main_run [OF run dl ne] show ?thesis by blast
qed

text \<open>Claim C4.  When the catalog answer has no \<open>response.items\<close> (the API error payload), the run prints the payload and the abort message, writes no file (no staging directory, no manifest) and sends no request after the catalog call: no upload.\<close>

theorem main_catalog_error:
  assumes "E (sent s) (get_photos_request \<lparr>user_id = uid, vk_token = vt\<rparr> 0 5) = Some r"
    and "resp_json r = Some data"
    and "catalog_items data = Inl KeyError"
  shows "main E uid vt yt folder s =
           (Inr (), s\<lparr>sent := sent s @ [get_photos_request \<lparr>user_id = uid, vk_token = vt\<rparr> 0 5],
                      console := console s @ [MsgPhotosError data, MsgAbort]\<rparr>)"
  using assms
  by (simp add: main_def download_photos_def get_photos_def http_def resp_json_call_def py_print_def)

theorem main_catalog_error_witness:
  "main (fixture_env (JDict [(''error'', JDict [(''error_code'', JInt 5)])]) 201 201)
     ''1'' ''t'' ''y'' ''backup'' fresh_sys =
   (Inr (), fresh_sys\<lparr>sent := [get_photos_request \<lparr>user_id = ''1'', vk_token = ''t''\<rparr> 0 5],
                       console := [MsgPhotosError (JDict [(''error'', JDict [(''error_code'', JInt 5)])]),
                                   MsgAbort]\<rparr>)"
  (is "main ?E _ _ _ _ _ = _")
proof -
  let ?data = "JDict [(''error'', JDict [(''error_code'', JInt 5)])]"
  let ?r = "\<lparr>status_code = 200, content = [], resp_text = [], resp_json = Some ?data\<rparr>"
  have h1: "?E (sent fresh_sys) (get_photos_request \<lparr>user_id = ''1'', vk_token = ''t''\<rparr> 0 5) = Some ?r"
    by (simp add: fixture_env_def get_photos_request_def)
  have h2: "resp_json ?r = Some ?data" by simp
  have h3: "catalog_items ?data = Inl KeyError" by (simp add: catalog_items_def)
  from main_catalog_error [where E = ?E and s = fresh_sys, OF h1 h2 h3] show ?thesis
    by (simp add: fresh_sys_def)
qed

text \<open>Claim C16.  When the download yields no record (for instance every photo lacks sizes), the run only prints the abort message: no folder request, no upload, no manifest.\<close>

theorem main_empty_abort:
  assumes "download_photos E \<lparr>user_id = uid, vk_token = vt\<rparr> s = (Inr [], s1)"
  shows "main E uid vt yt folder s = (Inr (), s1\<lparr>console := console s1 @ [MsgAbort]\<rparr>)"
  using assms by (simp add: main_def py_print_def)

theorem main_empty_abort_witness:
  "\<exists>s1. download_photos (fixture_env (catalog_json [\<lparr>pr_likes = 3, pr_sizes = []\<rparr>]) 201 201)
            \<lparr>user_id = ''1'', vk_token = ''t''\<rparr> fresh_sys = (Inr [], s1) \<and>
        main (fixture_env (catalog_json [\<lparr>pr_likes = 3, pr_sizes = []\<rparr>]) 201 201)
          ''1'' ''t'' ''y'' ''backup'' fresh_sys = (Inr (), s1\<lparr>console := console s1 @ [MsgAbort]\<rparr>)"
proof -
  have "\<exists>s1. download_photos (fixture_env (catalog_json [\<lparr>pr_likes = 3, pr_sizes = []\<rparr>]) 201 201)
            \<lparr>user_id = ''1'', vk_token = ''t''\<rparr> fresh_sys = (Inr [], s1)"
    by (simp add: main_eval_simps)
  then obtain s1 where "download_photos (fixture_env (catalog_json [\<lparr>pr_likes = 3, pr_sizes = []\<rparr>]) 201 201)
            \<lparr>user_id = ''1'', vk_token = ''t''\<rparr> fresh_sys = (Inr [], s1)" ..
  with main_empty_abort [OF this] show ?thesis by blast
qed

theorem upload_fails_remote_only_witness:
  "\<exists>s1 s2.
     (pipe_step (link_down_env (catalog_json [photo42])) \<lparr>user_id = ''1'', vk_token = ''t''\<rparr>
        \<lparr>ya_token = ''y'', folder_name = ''backup''\<rparr>)\<^sup>*\<^sup>*
       (CStart, fresh_sys)
       (CPublish [\<lparr>tr_file_name = ''42.jpg'', tr_size = JStr ''x''\<rparr>]
                 [\<lparr>tr_file_name = ''42.jpg'', tr_size = JStr ''x''\<rparr>], s1) \<and>
     pipe_step (link_down_env (catalog_json [photo42])) \<lparr>user_id = ''1'', vk_token = ''t''\<rparr>
        \<lparr>ya_token = ''y'', folder_name = ''backup''\<rparr>
       (CPublish [\<lparr>tr_file_name = ''42.jpg'', tr_size = JStr ''x''\<rparr>]
                 [\<lparr>tr_file_name = ''42.jpg'', tr_size = JStr ''x''\<rparr>], s1)
       (CFailed RequestException, s2) \<and>
     RequestException \<in> {RequestException, JSONDecodeError, AttributeError}"
proof -
  let ?E = "link_down_env (catalog_json [photo42])"
  let ?vkd = "\<lparr>user_id = ''1'', vk_token = ''t''\<rparr>"
  let ?ya = "\<lparr>ya_token = ''y'', folder_name = ''backup''\<rparr>"
  let ?t = "\<lparr>tr_file_name = ''42.jpg'', tr_size = JStr ''x''\<rparr>"
  let ?step = "pipe_step ?E ?vkd ?ya"
  define S1 where "S1 = snd (get_photos ?E ?vkd 0 5 fresh_sys)"
  have f1: "get_photos ?E ?vkd 0 5 fresh_sys = (Inr (catalog_json [photo42]), S1)"
    by (simp add: S1_def main_eval_simps link_down_env_def)
  have c1: "catalog_items (catalog_json [photo42]) = Inr (JList [photo_json photo42])"
    by (simp add: catalog_items_def catalog_json_def)
  define S2 where "S2 = snd (pseq ensure_images_dir (plift (py_iter (JList [photo_json photo42]))) S1)"
  have f2: "pseq ensure_images_dir (plift (py_iter (JList [photo_json photo42]))) S1 =
            (Inr [photo_json photo42], S2)"
    by (simp add: S1_def S2_def main_eval_simps link_down_env_def)
  define S3 where "S3 = snd (download_photo ?E (photo_json photo42) S2)"
  have f3: "download_photo ?E (photo_json photo42) S2 = (Inr (Some ?t), S3)"
    by (simp add: S1_def S2_def S3_def main_eval_simps link_down_env_def)
  define S4 where "S4 = snd (create_folder ?E ?ya S3)"
  have f4: "create_folder ?E ?ya S3 = (Inr (), S4)"
    by (simp add: S1_def S2_def S3_def S4_def main_eval_simps link_down_env_def)
  define S5 where "S5 = snd (upload_photo ?E ?ya ?t S4)"
  have f5: "upload_photo ?E ?ya ?t S4 = (Inl RequestException, S5)"
    by (simp add: S1_def S2_def S3_def S4_def S5_def main_eval_simps link_down_env_def)
  have "?step (CStart, fresh_sys) (CFetched (catalog_json [photo42]), S1)"
    using f1 by (rule pipe_step.fetch)
  moreover have "?step (CFetched (catalog_json [photo42]), S1) (CMaterialize [photo_json photo42] [], S2)"
    using c1 f2 by (rule pipe_step.catalog_items)
  moreover have "?step (CMaterialize [photo_json photo42] [], S2) (CMaterialize [] [?t], S3)"
    using pipe_step.photo [OF f3, of ?vkd ?ya "[]" "[]"] by simp
  moreover have "?step (CMaterialize [] [?t], S3) (CMaterialized [?t], S3)"
    by (rule pipe_step.materialized)
  moreover have "?step (CMaterialized [?t], S3) (CFolder [?t], S3)"
    by (rule pipe_step.continue) simp
  moreover have "?step (CFolder [?t], S3) (CPublish [?t] [?t], S4)"
    using f4 by (rule pipe_step.folder)
  ultimately have reach: "?step\<^sup>*\<^sup>* (CStart, fresh_sys) (CPublish [?t] [?t], S4)"
    by (meson converse_rtranclp_into_rtranclp rtranclp.rtrancl_refl)
  have fail: "?step (CPublish [?t] [?t], S4) (CFailed RequestException, S5)"
    using f5 by (rule pipe_step.upload_fail)
  from upload_fails_remote_only [OF reach fail] reach fail show ?thesis by blast
qed

text \<open>Claim C5.  Liveness of a run: when the catalog call answers with a catalog of photo
  records, the image hosts answer, the staging area is usable, the folder request is
  answered (with any status), every upload-link request is answered with a JSON object
  holding a string \<open>href\<close>, every upload \<open>PUT\<close> is answered, and \<open>photos.json\<close> is not
  a directory, then \<open>main\<close> returns normally: it neither raises nor gets stuck.\<close>

theorem main_completes:
  assumes "E (sent s) (get_photos_request \<lparr>user_id = uid, vk_token = vt\<rparr> 0 5) = Some r"
    and "resp_json r = Some (catalog_json ps)"
    and "serves_images E" and "staging_free s"
    and "\<forall>h. E h (create_folder_request \<lparr>ya_token = yt, folder_name = folder\<rparr>) \<noteq> None"
    and "gives_upload_links E \<lparr>ya_token = yt, folder_name = folder\<rparr>"
    and "accepts_uploads E"
    and "fs s manifest_path \<noteq> Some Dir"
  shows "fst (main E uid vt yt folder s) = Inr ()"
proof -
  let ?ya = "\<lparr>ya_token = yt, folder_name = folder\<rparr>"
  let ?ts = "spec_transfers ps"
  obtain s1 where dl: "download_photos E \<lparr>user_id = uid, vk_token = vt\<rparr> s = (Inr ?ts, s1)"
    and staged: "\<forall>t \<in> set ?ts. is_file s1 (staging_path (tr_file_name t))"
    using download_photos_run [OF assms(1-4)] by blast
  have "fs s1 manifest_path = fs s manifest_path"
    using keepsD [OF keeps_fs_at_download_photos [OF manifest_path_outside] refl dl] .
  show ?thesis
  proof (cases "?ts = []")
    case True
    with dl show ?thesis by (simp add: main_def py_print_def)
  next
    case False
    obtain s2 where cf: "create_folder E ?ya s1 = (Inr (), s2)" and fs2: "fs s2 = fs s1"
      using create_folder_completes assms(5) by blast
    from staged fs2 have "\<forall>t \<in> set ?ts. is_file s2 (staging_path (tr_file_name t))"
      by (simp add: is_file_def)
    then obtain s3 where up: "upload_photos E ?ya ?ts s2 = (Inr (), s3)" and fs3: "fs s3 = fs s2"
      using upload_photos_completes assms(6,7) by blast
    obtain s4 where "write_manifest ?ts s3 = (Inr (), s4)"
      using write_manifest_completes assms(8) fs2 fs3 \<open>fs s1 manifest_path = fs s manifest_path\<close>
      by metis
    with dl False cf up show ?thesis by (simp add: main_def Let_def)
  qed
qed

text \<open>Claim C6.  The answers to the upload \<open>PUT\<close>s are never looked at (line 77): two
  environments that answer every request without a body alike, and raise on the same
  requests, give the same run of \<open>main\<close>, final state included.  A rejected upload is
  not noticed, and the manifest is written as if the photo had been transferred.\<close>

theorem main_ignores_upload_answers:
  assumes "agree_except_bodies E' E"
  shows "main E' uid vt yt folder = main E uid vt yt folder"
  using assms
  by (simp add: main_def download_photos_agree create_folder_agree upload_photos_agree cong: if_cong)


theorem main_completes_witness:
  "fst (main (fixture_env (catalog_json [photo42]) 201 201) ''1'' ''t'' ''y'' ''backup'' fresh_sys) = Inr ()"
proof -
  let ?E = "fixture_env (catalog_json [photo42]) 201 201"
  let ?r = "\<lparr>status_code = 200, content = [], resp_text = [], resp_json = Some (catalog_json [photo42])\<rparr>"
  have h1: "?E (sent fresh_sys) (get_photos_request \<lparr>user_id = ''1'', vk_token = ''t''\<rparr> 0 5) = Some ?r"
    by (simp add: fixture_env_def get_photos_request_def)
  have h2: "resp_json ?r = Some (catalog_json [photo42])" by simp
  have h3: "serves_images ?E" by (simp add: serves_images_def fixture_env_def)
  have h4: "staging_free fresh_sys" by (simp add: staging_free_def fresh_sys_def)
  have h5: "\<forall>h. ?E h (create_folder_request \<lparr>ya_token = ''y'', folder_name = ''backup''\<rparr>) \<noteq> None"
    by (simp add: fixture_env_def)
  have h6: "gives_upload_links ?E \<lparr>ya_token = ''y'', folder_name = ''backup''\<rparr>"
    by (simp add: gives_upload_links_def fixture_env_def upload_link_request_def disk_upload_url_def
                  vk_photos_url_def disk_resources_url_def)
  have h7: "accepts_uploads ?E" by (simp add: accepts_uploads_def fixture_env_def)
  have h8: "fs fresh_sys manifest_path \<noteq> Some Dir" by (simp add: fresh_sys_def)
  from main_completes [OF h1 h2 h3 h4 h5 h6 h7 h8] show ?thesis .
qed

theorem main_ignores_upload_answers_witness:
  "main (\<lambda>h r. if req_data r = None then fixture_env (catalog_json [photo42]) 201 201 h r
               else Some \<lparr>status_code = 507, content = [], resp_text = ''full'', resp_json = None\<rparr>)
     ''1'' ''t'' ''y'' ''backup'' =
   main (fixture_env (catalog_json [photo42]) 201 201) ''1'' ''t'' ''y'' ''backup''"
proof -
  have "agree_except_bodies
          (\<lambda>h r. if req_data r = None then fixture_env (catalog_json [photo42]) 201 201 h r
                 else Some \<lparr>status_code = 507, content = [], resp_text = ''full'', resp_json = None\<rparr>)
          (fixture_env (catalog_json [photo42]) 201 201)"
    by (simp add: agree_except_bodies_def fixture_env_def)
  from main_ignores_upload_answers [OF this] show ?thesis .
qed

end
